theory Spec2Isabelle
  imports Main "HOL-Library.Sublist" "HOL-Library.AList"
begin

section \<open>Python strings\<close>

text \<open>
  A Python \<open>str\<close> is modelled as a \<open>string\<close>: a list of 8-bit characters, each read as
  the code point of that number.  The functions below are the string methods the
  program calls, with the scanning order of CPython: matches are searched from the left
  and do not overlap.
\<close>

text \<open>\<open>s.split(sep)\<close> for a non-empty separator; \<open>cur\<close> collects the current piece in reverse.\<close>

function py_split_aux :: "string \<Rightarrow> string \<Rightarrow> string \<Rightarrow> string list" where
  "py_split_aux sep cur [] = [rev cur]"
| "py_split_aux sep cur (c # s) =
     (if sep \<noteq> [] \<and> prefix sep (c # s)
      then rev cur # py_split_aux sep [] (drop (length sep) (c # s))
      else py_split_aux sep (c # cur) s)"
  by pat_completeness auto
termination
  by (relation "measure (\<lambda>(sep, cur, s). length s)") auto

definition py_split :: "string \<Rightarrow> string \<Rightarrow> string list" where
  "py_split sep s = py_split_aux sep [] s"

text \<open>\<open>s.replace(old, new)\<close> for a non-empty \<open>old\<close>: every match, left to right.\<close>

function py_replace :: "string \<Rightarrow> string \<Rightarrow> string \<Rightarrow> string" where
  "py_replace old new [] = []"
| "py_replace old new (c # s) =
     (if old \<noteq> [] \<and> prefix old (c # s)
      then new @ py_replace old new (drop (length old) (c # s))
      else c # py_replace old new s)"
  by pat_completeness auto
termination
  by (relation "measure (\<lambda>(old, new, s). length s)") auto

text \<open>
  The first match of \<open>sep\<close> in \<open>s\<close>, as the pair of what is before and what is after it.
\<close>

fun find_first :: "string \<Rightarrow> string \<Rightarrow> (string \<times> string) option" where
  "find_first sep [] = (if sep = [] then Some ([], []) else None)"
| "find_first sep (c # s) =
     (if prefix sep (c # s) then Some ([], drop (length sep) (c # s))
      else map_option (\<lambda>(b, a). (c # b, a)) (find_first sep s))"

text \<open>
  \<open>s.rsplit(sep, 1)\<close>: one split at the last match of \<open>sep\<close>, found by scanning the
  reversed string for the reversed separator.
\<close>

definition py_rsplit1 :: "string \<Rightarrow> string \<Rightarrow> string list" where
  "py_rsplit1 sep s =
     (case find_first (rev sep) (rev s) of
        None \<Rightarrow> [s]
      | Some (b, a) \<Rightarrow> [rev a, rev b])"

text \<open>\<open>sep.join(xs)\<close>.\<close>

fun py_join :: "string \<Rightarrow> string list \<Rightarrow> string" where
  "py_join sep [] = []"
| "py_join sep [x] = x"
| "py_join sep (x # y # ys) = x @ sep @ py_join sep (y # ys)"

text \<open>
  \<open>str.isspace\<close> on one character, for the code points below 256, and \<open>s.strip()\<close>.
\<close>

definition py_isspace :: "char \<Rightarrow> bool" where
  "py_isspace c =
     (let n = (of_char c :: nat)
      in (9 \<le> n \<and> n \<le> 13) \<or> (28 \<le> n \<and> n \<le> 32) \<or> n = 133 \<or> n = 160)"

definition py_strip :: "string \<Rightarrow> string" where
  "py_strip s = rev (dropWhile py_isspace (rev (dropWhile py_isspace s)))"

section \<open>Exceptions\<close>

text \<open>The exception classes that the modelled code can raise or catch.\<close>

datatype py_error =
    AttributeError
  | KeyError
  | TypeError
  | ValueError
  | OverflowError
  | OSError
  | JSONDecodeError
  | UnicodeDecodeError

text \<open>
  \<open>is_subclass e c\<close>: an exception of class \<open>e\<close> is an instance of the class \<open>c\<close>.
  \<open>JSONDecodeError\<close> and \<open>UnicodeDecodeError\<close> are subclasses of \<open>ValueError\<close>;
  \<open>IOError\<close> is another name of \<open>OSError\<close>.
\<close>

definition is_subclass :: "py_error \<Rightarrow> py_error \<Rightarrow> bool" where
  "is_subclass e c = (e = c \<or> (c = ValueError \<and> (e = JSONDecodeError \<or> e = UnicodeDecodeError)))"

text \<open>\<open>except (c1, ..., cn)\<close> catches an exception that is an instance of one of the classes.\<close>

definition caught :: "py_error list \<Rightarrow> py_error \<Rightarrow> bool" where
  "caught classes e = list_ex (is_subclass e) classes"

section \<open>Papers (\<open>src/arxiv_fetcher.py\<close>)\<close>

record paper =
  arxiv_id :: string
  title :: string
  authors :: "string list"
  abstract :: string
  categories :: "string list"
  published :: string
  updated :: string
  arxiv_url :: string
  pdf_url :: string

text \<open>
  A feed entry as \<open>Paper.from_entry\<close> reads it: \<open>entry.id\<close> is an attribute access,
  which raises \<open>AttributeError\<close> when the entry has no id; every other field is read
  with \<open>.get(key, default)\<close>.  An author or a tag is a dictionary of which only one
  key is read, again with a default.
\<close>

record entry =
  e_id :: "string option"
  e_authors :: "string option list option"
  e_tags :: "string option list option"
  e_title :: "string option"
  e_summary :: "string option"
  e_published :: "string option"
  e_updated :: "string option"

definition get_or :: "'a \<Rightarrow> 'a option \<Rightarrow> 'a" where
  "get_or d x = (case x of None \<Rightarrow> d | Some v \<Rightarrow> v)"

text \<open>
  The identifier part of \<open>from_entry\<close>: the piece after \<open>/abs/\<close>, cut before its last
  \<open>v\<close> when it has one.
\<close>

definition entry_arxiv_id :: "string \<Rightarrow> string" where
  "entry_arxiv_id eid =
     (let arxiv_id = last (py_split ''/abs/'' eid)
      in if CHR ''v'' \<in> set arxiv_id then hd (py_rsplit1 ''v'' arxiv_id) else arxiv_id)"

definition from_entry :: "entry \<Rightarrow> py_error + paper" where
  "from_entry e =
     (case e_id e of
        None \<Rightarrow> Inl AttributeError
      | Some eid \<Rightarrow>
          Inr \<lparr> arxiv_id = entry_arxiv_id eid,
                title = py_strip (py_replace [CHR 0x0A] '' '' (get_or [] (e_title e))),
                authors = map (get_or []) (get_or [] (e_authors e)),
                abstract = py_strip (py_replace [CHR 0x0A] '' '' (get_or [] (e_summary e))),
                categories = map (get_or []) (get_or [] (e_tags e)),
                published = get_or [] (e_published e),
                updated = get_or [] (e_updated e),
                arxiv_url = eid,
                pdf_url = py_replace ''/abs/'' ''/pdf/'' eid @ ''.pdf'' \<rparr>)"

section \<open>The query builder (\<open>src/config_loader.py\<close>)\<close>

text \<open>
  The \<open>interests\<close> section of the configuration, after the two \<open>.get(key, [])\<close>
  reads of \<open>get_arxiv_query\<close>.
\<close>

record interests =
  cfg_categories :: "string list"
  cfg_keywords :: "string list"

definition kw_terms :: "string \<Rightarrow> string list" where
  "kw_terms kw =
     (if CHR '' '' \<in> set kw
      then [''ti:'' @ [CHR 0x22] @ kw @ [CHR 0x22], ''abs:'' @ [CHR 0x22] @ kw @ [CHR 0x22]]
      else [''ti:'' @ kw, ''abs:'' @ kw])"

definition get_arxiv_query :: "interests \<Rightarrow> string" where
  "get_arxiv_query i =
     (let query_parts =
            (if cfg_categories i \<noteq> []
             then [''('' @ py_join '' OR '' (map (\<lambda>cat. ''cat:'' @ cat) (cfg_categories i)) @ '')'']
             else []) @
            (if cfg_keywords i \<noteq> []
             then [''('' @ py_join '' OR '' (concat (map kw_terms (cfg_keywords i))) @ '')'']
             else [])
      in if length query_parts > 1 then py_join '' AND '' query_parts
         else if query_parts \<noteq> [] then hd query_parts
         else ''cat:cs.LG'')"

text \<open>A revision suffix is \<open>v\<close> followed by decimal digits.\<close>

definition is_digit :: "char \<Rightarrow> bool" where
  "is_digit c = (let n = (of_char c :: nat) in 48 \<le> n \<and> n \<le> 57)"

definition is_digits :: "string \<Rightarrow> bool" where
  "is_digits d = list_all is_digit d"

text \<open>An entry that carries an id and nothing else.\<close>

definition entry_with_id :: "string \<Rightarrow> entry" where
  "entry_with_id eid =
     \<lparr> e_id = Some eid, e_authors = None, e_tags = None, e_title = None,
       e_summary = None, e_published = None, e_updated = None \<rparr>"

section \<open>Timestamps (\<open>datetime\<close>)\<close>

text \<open>
  A \<open>datetime\<close> value is either naive (no timezone information) or aware.  A naive
  value is the number of microseconds of its fields since
  \<open>datetime.min = 0001-01-01T00:00:00\<close>; an aware value is the number of microseconds
  of its instant since \<open>0001-01-01T00:00:00\<close> UTC.  Two naive values, or two aware
  values, are ordered as these numbers are; an order comparison of a naive with an
  aware value raises \<open>TypeError\<close>.
\<close>

datatype datetime = Naive int | Aware int

definition dt_ge :: "datetime \<Rightarrow> datetime \<Rightarrow> py_error + bool" where
  "dt_ge a b =
     (case (a, b) of
        (Naive x, Naive y) \<Rightarrow> Inr (x \<ge> y)
      | (Aware x, Aware y) \<Rightarrow> Inr (x \<ge> y)
      | _ \<Rightarrow> Inl TypeError)"

definition dt_lt :: "datetime \<Rightarrow> datetime \<Rightarrow> py_error + bool" where
  "dt_lt a b =
     (case (a, b) of
        (Naive x, Naive y) \<Rightarrow> Inr (x < y)
      | (Aware x, Aware y) \<Rightarrow> Inr (x < y)
      | _ \<Rightarrow> Inl TypeError)"

definition us_per_day :: int where
  "us_per_day = 86400000000"

text \<open>The microseconds of \<open>datetime.max = 9999-12-31T23:59:59.999999\<close>.\<close>

definition max_us :: int where
  "max_us = 3652059 * us_per_day - 1"

text \<open>
  \<open>t - timedelta(days=days)\<close> on the microseconds of a timestamp: \<open>timedelta\<close> raises
  \<open>OverflowError\<close> for more than 999999999 days, and the subtraction raises it when
  the result is not between \<open>datetime.min\<close> and \<open>datetime.max\<close>.
\<close>

definition minus_days :: "int \<Rightarrow> int \<Rightarrow> py_error + int" where
  "minus_days t days =
     (if \<bar>days\<bar> > 999999999 then Inl OverflowError
      else let r = t - days * us_per_day
           in if r < 0 \<or> max_us < r then Inl OverflowError else Inr r)"

text \<open>
  \<open>datetime.fromisoformat\<close> belongs to the standard library and is a parameter
  here: it maps a string to a timestamp, or to \<open>None\<close> where it raises
  \<open>ValueError\<close>.
\<close>

type_synonym iso_parser = "string \<Rightarrow> datetime option"

text \<open>
  For concrete inputs, \<open>fromisoformat_basic\<close> reads the one shape
  \<open>YYYY-MM-DDTHH:MM:SS\<close>, with or without a UTC offset \<open>+HH:MM\<close> or \<open>-HH:MM\<close>, as
  \<open>datetime.fromisoformat\<close> does, and rejects everything else.
\<close>

definition digit_val :: "char \<Rightarrow> int option" where
  "digit_val c = (if is_digit c then Some (int (of_char c) - 48) else None)"

fun digits_val :: "int \<Rightarrow> string \<Rightarrow> int option" where
  "digits_val acc [] = Some acc"
| "digits_val acc (c # cs) =
     (case digit_val c of None \<Rightarrow> None | Some v \<Rightarrow> digits_val (10 * acc + v) cs)"

definition field :: "nat \<Rightarrow> nat \<Rightarrow> string \<Rightarrow> int option" where
  "field i n s = digits_val 0 (take n (drop i s))"

definition is_leap :: "int \<Rightarrow> bool" where
  "is_leap y = (y mod 4 = 0 \<and> (y mod 100 \<noteq> 0 \<or> y mod 400 = 0))"

definition days_before_year :: "int \<Rightarrow> int" where
  "days_before_year y = (y - 1) * 365 + (y - 1) div 4 - (y - 1) div 100 + (y - 1) div 400"

definition days_in_month :: "int \<Rightarrow> int \<Rightarrow> int" where
  "days_in_month y m =
     (if m = 2 then (if is_leap y then 29 else 28)
      else if m = 4 \<or> m = 6 \<or> m = 9 \<or> m = 11 then 30 else 31)"

definition days_before_month :: "int \<Rightarrow> int \<Rightarrow> int" where
  "days_before_month y m =
     [0, 31, 59, 90, 120, 151, 181, 212, 243, 273, 304, 334] ! nat (m - 1)
       + (if m > 2 \<and> is_leap y then 1 else 0)"

definition local_us :: "string \<Rightarrow> int option" where
  "local_us s =
     (case (field 0 4 s, field 5 2 s, field 8 2 s, field 11 2 s, field 14 2 s, field 17 2 s) of
        (Some y, Some m, Some d, Some hh, Some mi, Some ss) \<Rightarrow>
          if s ! 4 = CHR ''-'' \<and> s ! 7 = CHR ''-'' \<and> s ! 10 = CHR ''T'' \<and>
             s ! 13 = CHR '':'' \<and> s ! 16 = CHR '':'' \<and>
             1 \<le> y \<and> 1 \<le> m \<and> m \<le> 12 \<and> 1 \<le> d \<and> d \<le> days_in_month y m \<and>
             hh < 24 \<and> mi < 60 \<and> ss < 60
          then Some (((days_before_year y + days_before_month y m + d - 1) * 86400
                        + hh * 3600 + mi * 60 + ss) * 1000000)
          else None
      | _ \<Rightarrow> None)"

definition offset_us :: "string \<Rightarrow> int option" where
  "offset_us s =
     (case (field 1 2 s, field 4 2 s) of
        (Some hh, Some mi) \<Rightarrow>
          if (s ! 0 = CHR ''+'' \<or> s ! 0 = CHR ''-'') \<and> s ! 3 = CHR '':'' \<and> hh < 24 \<and> mi < 60
          then Some ((if s ! 0 = CHR ''-'' then - 1 else 1) * (hh * 3600 + mi * 60) * 1000000)
          else None
      | _ \<Rightarrow> None)"

definition fromisoformat_basic :: iso_parser where
  "fromisoformat_basic s =
     (if length s = 19 then map_option Naive (local_us s)
      else if length s = 25 then
        (case (local_us (take 19 s), offset_us (drop 19 s)) of
           (Some t, Some off) \<Rightarrow> Some (Aware (t - off))
         | _ \<Rightarrow> None)
      else None)"

section \<open>The fetcher (\<open>src/arxiv_fetcher.py\<close>)\<close>

text \<open>
  \<open>ArxivFetcher.fetch\<close>, from the response on: a failed request (\<open>None\<close>) gives the
  empty list; otherwise every entry of the feed is converted, and an entry whose
  conversion raises is skipped.
\<close>

definition fetch :: "entry list option \<Rightarrow> paper list" where
  "fetch response =
     (case response of
        None \<Rightarrow> []
      | Some entries \<Rightarrow>
          concat (map (\<lambda>e. case from_entry e of Inl _ \<Rightarrow> [] | Inr p \<Rightarrow> [p]) entries))"

text \<open>The timestamp that \<open>filter_by_date\<close> parses from a paper.\<close>

definition parse_published :: "iso_parser \<Rightarrow> paper \<Rightarrow> datetime option" where
  "parse_published fromisoformat p = fromisoformat (py_replace ''Z'' ''+00:00'' (published p))"

text \<open>
  The body of the \<open>try\<close> in the loop of \<open>filter_by_date\<close>: \<open>Inr True\<close> when the paper
  is appended there, \<open>Inr False\<close> when it is not, \<open>Inl\<close> the exception raised.
\<close>

definition try_recent :: "iso_parser \<Rightarrow> datetime \<Rightarrow> paper \<Rightarrow> py_error + bool" where
  "try_recent fromisoformat cutoff p =
     (case parse_published fromisoformat p of
        None \<Rightarrow> Inl ValueError
      | Some pub_date \<Rightarrow> dt_ge pub_date cutoff)"

text \<open>
  The loop of \<open>filter_by_date\<close>; \<open>filtered\<close> is the list built so far.  The handler
  catches \<open>ValueError\<close> and \<open>AttributeError\<close>, and appends the paper; any other
  exception leaves the function.
\<close>

fun filter_loop :: "iso_parser \<Rightarrow> datetime \<Rightarrow> paper list \<Rightarrow> paper list \<Rightarrow> py_error + paper list" where
  "filter_loop fromisoformat cutoff filtered [] = Inr filtered"
| "filter_loop fromisoformat cutoff filtered (p # ps) =
     (case try_recent fromisoformat cutoff p of
        Inr keep \<Rightarrow>
          filter_loop fromisoformat cutoff (if keep then filtered @ [p] else filtered) ps
      | Inl e \<Rightarrow>
          if caught [ValueError, AttributeError] e
          then filter_loop fromisoformat cutoff (filtered @ [p]) ps
          else Inl e)"

text \<open>
  \<open>filter_by_date\<close>; \<open>now_utc\<close> is the reading of \<open>datetime.now(timezone.utc)\<close>, in
  microseconds.
\<close>

definition filter_by_date :: "iso_parser \<Rightarrow> int \<Rightarrow> int \<Rightarrow> paper list \<Rightarrow> py_error + paper list" where
  "filter_by_date fromisoformat now_utc days papers =
     (if days \<le> 0 then Inr papers
      else case minus_days now_utc days of
             Inl e \<Rightarrow> Inl e
           | Inr cutoff \<Rightarrow> filter_loop fromisoformat (Aware cutoff) [] papers)"

text \<open>
  \<open>fetch_recent\<close>.  The date range of the query starts at
  \<open>end_date - timedelta(days=days_recent)\<close>, where \<open>end_date\<close> is the reading
  \<open>now_query\<close> of the clock; the query goes to the catalog, whose response is a
  parameter; the fetched papers go through \<open>filter_by_date\<close> with the same
  \<open>days_recent\<close>, at the reading \<open>now_utc\<close>.
\<close>

definition fetch_recent ::
  "iso_parser \<Rightarrow> int \<Rightarrow> int \<Rightarrow> int \<Rightarrow> entry list option \<Rightarrow> py_error + paper list" where
  "fetch_recent fromisoformat now_query now_utc days_recent response =
     (case minus_days now_query days_recent of
        Inl e \<Rightarrow> Inl e
      | Inr start_date \<Rightarrow> filter_by_date fromisoformat now_utc days_recent (fetch response))"

text \<open>A paper that carries an id and a publication date and nothing else.\<close>

definition paper_of :: "string \<Rightarrow> string \<Rightarrow> paper" where
  "paper_of i pub =
     \<lparr> arxiv_id = i, title = [], authors = [], abstract = [], categories = [],
       published = pub, updated = [], arxiv_url = [], pdf_url = [] \<rparr>"

text \<open>
  Whether the loop of \<open>filter_by_date\<close> appends a paper, when no exception
  leaves the loop at that paper.
\<close>

definition kept :: "iso_parser \<Rightarrow> datetime \<Rightarrow> paper \<Rightarrow> bool" where
  "kept fromisoformat cutoff p =
     (case try_recent fromisoformat cutoff p of
        Inr keep \<Rightarrow> keep
      | Inl e \<Rightarrow> caught [ValueError, AttributeError] e)"

text \<open>The reading \<open>2024-01-20T00:00:00\<close> of a clock, in microseconds.\<close>

definition sample_now :: int where
  "sample_now = 63841305600000000"

section \<open>JSON values\<close>

text \<open>
  What \<open>json.load\<close> returns, and what the history manager keeps in \<open>self.data\<close>.  A
  \<open>dict\<close> is an association list in insertion order; a float is kept as its literal,
  since the program never computes with one.
\<close>

datatype json =
    JNull
  | JBool bool
  | JInt int
  | JFloat string
  | JStr string
  | JArr "json list"
  | JObj "(string \<times> json) list"

text \<open>\<open>x[key]\<close> for a string key.\<close>

definition py_getitem :: "json \<Rightarrow> string \<Rightarrow> py_error + json" where
  "py_getitem x key =
     (case x of
        JObj kvs \<Rightarrow> (case map_of kvs key of None \<Rightarrow> Inl KeyError | Some v \<Rightarrow> Inr v)
      | _ \<Rightarrow> Inl TypeError)"

text \<open>\<open>x[key] = v\<close> for a string key; the result is \<open>x\<close> after the assignment.\<close>

definition py_setitem :: "json \<Rightarrow> string \<Rightarrow> json \<Rightarrow> py_error + json" where
  "py_setitem x key v =
     (case x of
        JObj kvs \<Rightarrow> Inr (JObj (AList.update key v kvs))
      | _ \<Rightarrow> Inl TypeError)"

text \<open>\<open>del kvs[key]\<close> on the pairs of a \<open>dict\<close>.\<close>

definition py_delitem :: "(string \<times> json) list \<Rightarrow> string \<Rightarrow> py_error + (string \<times> json) list" where
  "py_delitem kvs key =
     (if key \<in> set (map fst kvs) then Inr (AList.delete key kvs) else Inl KeyError)"

text \<open>\<open>sub in s\<close> on strings.\<close>

fun contains_str :: "string \<Rightarrow> string \<Rightarrow> bool" where
  "contains_str sub [] = (sub = [])"
| "contains_str sub (c # s) = (prefix sub (c # s) \<or> contains_str sub s)"

text \<open>
  \<open>key in x\<close> for a string key: a key of a \<open>dict\<close>, an element of a \<open>list\<close>, a
  substring of a \<open>str\<close>; the other values are not iterable.
\<close>

definition py_contains :: "json \<Rightarrow> string \<Rightarrow> py_error + bool" where
  "py_contains x key =
     (case x of
        JObj kvs \<Rightarrow> Inr (key \<in> set (map fst kvs))
      | JArr xs \<Rightarrow> Inr (JStr key \<in> set xs)
      | JStr s \<Rightarrow> Inr (contains_str key s)
      | _ \<Rightarrow> Inl TypeError)"

text \<open>\<open>x.items()\<close>: only a \<open>dict\<close> has the method.\<close>

definition py_items :: "json \<Rightarrow> py_error + (string \<times> json) list" where
  "py_items x = (case x of JObj kvs \<Rightarrow> Inr kvs | _ \<Rightarrow> Inl AttributeError)"

section \<open>The history manager (\<open>src/history_manager.py\<close>)\<close>

text \<open>
  The history file, as \<open>_load\<close> finds it: missing; present but \<open>open\<close> or \<open>read\<close>
  raises \<open>IOError\<close>; present with bytes that are not UTF-8; present with text that is
  not JSON; or present with the JSON text of a value.
\<close>

datatype file_state = Missing | Unreadable | Undecodable | NotJson | Holds json

text \<open>
  Whether \<open>_save\<close> can write: \<open>mkdir\<close> may raise \<open>OSError\<close>, and so may \<open>open\<close> or
  the write.
\<close>

datatype storage = Writable | MkdirFails | OpenFails

text \<open>
  \<open>history_file\<close> is the state of the file at the manager's path; \<open>saves\<close> counts the
  calls of \<open>_save\<close> that have written the file.
\<close>

record history_manager =
  data :: json
  retention_days :: int
  history_file :: file_state
  saves :: nat

definition empty_ledger :: json where
  "empty_ledger = JObj [(''papers'', JObj []), (''last_updated'', JNull)]"

text \<open>\<open>open\<close> and \<open>json.load\<close> on a file that exists.\<close>

definition read_json :: "file_state \<Rightarrow> py_error + json" where
  "read_json f =
     (case f of
        Holds j \<Rightarrow> Inr j
      | NotJson \<Rightarrow> Inl JSONDecodeError
      | Undecodable \<Rightarrow> Inl UnicodeDecodeError
      | _ \<Rightarrow> Inl OSError)"

text \<open>\<open>_load\<close>: the handler catches \<open>json.JSONDecodeError\<close> and \<open>IOError\<close> (\<open>OSError\<close>).\<close>

definition load :: "file_state \<Rightarrow> py_error + json" where
  "load f =
     (if f \<noteq> Missing
      then (case read_json f of
              Inr j \<Rightarrow> Inr j
            | Inl e \<Rightarrow> if caught [JSONDecodeError, OSError] e then Inr empty_ledger else Inl e)
      else Inr empty_ledger)"

text \<open>\<open>HistoryManager.__init__\<close>.\<close>

definition init :: "file_state \<Rightarrow> int \<Rightarrow> py_error + history_manager" where
  "init f retention =
     (case load f of
        Inl e \<Rightarrow> Inl e
      | Inr d \<Rightarrow> Inr \<lparr> data = d, retention_days = retention, history_file = f, saves = 0 \<rparr>)"

text \<open>\<open>_save\<close>; \<open>now_iso\<close> is \<open>datetime.now().isoformat()\<close>.\<close>

definition save :: "storage \<Rightarrow> string \<Rightarrow> history_manager \<Rightarrow> py_error + history_manager" where
  "save io now_iso h =
     (if io = MkdirFails then Inl OSError
      else case py_setitem (data h) ''last_updated'' (JStr now_iso) of
             Inl e \<Rightarrow> Inl e
           | Inr d \<Rightarrow>
               if io = OpenFails then Inl OSError
               else Inr (h\<lparr> data := d, history_file := Holds d, saves := saves h + 1 \<rparr>))"

definition is_seen :: "history_manager \<Rightarrow> string \<Rightarrow> py_error + bool" where
  "is_seen h i =
     (case py_getitem (data h) ''papers'' of
        Inl e \<Rightarrow> Inl e
      | Inr papers \<Rightarrow> py_contains papers i)"

text \<open>
  \<open>self.data["papers"]\<close> is an object inside \<open>self.data\<close>: a change of it is a change
  of \<open>self.data\<close>.  \<open>with_papers d papers\<close> is \<open>d\<close> after its \<open>papers\<close> object has
  become \<open>papers\<close>.
\<close>

definition with_papers :: "json \<Rightarrow> json \<Rightarrow> json" where
  "with_papers d papers =
     (case d of JObj kvs \<Rightarrow> JObj (AList.update ''papers'' papers kvs) | _ \<Rightarrow> d)"

definition seen_entry :: "string \<Rightarrow> string \<Rightarrow> json" where
  "seen_entry ttl seen_at = JObj [(''title'', JStr ttl), (''seen_at'', JStr seen_at)]"

text \<open>
  \<open>mark_seen\<close>; \<open>seen_at\<close> and \<open>now_iso\<close> are the two readings of
  \<open>datetime.now().isoformat()\<close>, the first in \<open>mark_seen\<close> and the second in \<open>_save\<close>.
\<close>

definition mark_seen ::
  "storage \<Rightarrow> string \<Rightarrow> string \<Rightarrow> history_manager \<Rightarrow> string \<Rightarrow> string \<Rightarrow> py_error + history_manager" where
  "mark_seen io seen_at now_iso h i ttl =
     (case py_getitem (data h) ''papers'' of
        Inl e \<Rightarrow> Inl e
      | Inr papers \<Rightarrow>
          (case py_setitem papers i (seen_entry ttl seen_at) of
             Inl e \<Rightarrow> Inl e
           | Inr papers' \<Rightarrow> save io now_iso (h\<lparr> data := with_papers (data h) papers' \<rparr>)))"

text \<open>
  The loop of \<open>mark_multiple_seen\<close> over the pairs of \<open>arxiv_id\<close> and \<open>title\<close>; a pair
  with an empty id is skipped.
\<close>

fun mark_loop :: "string \<Rightarrow> json \<Rightarrow> (string \<times> string) list \<Rightarrow> py_error + json" where
  "mark_loop now d [] = Inr d"
| "mark_loop now d ((i, ttl) # ps) =
     (if i \<noteq> []
      then (case py_getitem d ''papers'' of
              Inl e \<Rightarrow> Inl e
            | Inr papers \<Rightarrow>
                (case py_setitem papers i (seen_entry ttl now) of
                   Inl e \<Rightarrow> Inl e
                 | Inr papers' \<Rightarrow> mark_loop now (with_papers d papers') ps))
      else mark_loop now d ps)"

definition mark_multiple_seen ::
  "storage \<Rightarrow> string \<Rightarrow> string \<Rightarrow> history_manager \<Rightarrow> (string \<times> string) list \<Rightarrow> py_error + history_manager" where
  "mark_multiple_seen io now now_iso h ps =
     (case mark_loop now (data h) ps of
        Inl e \<Rightarrow> Inl e
      | Inr d \<Rightarrow> save io now_iso (h\<lparr> data := d \<rparr>))"

text \<open>\<open>filter_unseen\<close>: the comprehension asks \<open>is_seen\<close> for each paper in turn.\<close>

fun filter_unseen :: "history_manager \<Rightarrow> paper list \<Rightarrow> py_error + paper list" where
  "filter_unseen h [] = Inr []"
| "filter_unseen h (p # ps) =
     (case is_seen h (arxiv_id p) of
        Inl e \<Rightarrow> Inl e
      | Inr seen \<Rightarrow>
          (case filter_unseen h ps of
             Inl e \<Rightarrow> Inl e
           | Inr rest \<Rightarrow> Inr (if seen then rest else p # rest)))"

text \<open>
  The body of the \<open>try\<close> in \<open>cleanup_old_entries\<close>: \<open>Inr True\<close> when the id is
  appended to \<open>to_remove\<close>.  \<open>fromisoformat\<close> raises \<open>TypeError\<close> on a value that is
  not a string.
\<close>

definition try_expired :: "iso_parser \<Rightarrow> datetime \<Rightarrow> json \<Rightarrow> py_error + bool" where
  "try_expired fromisoformat cutoff info =
     (case py_getitem info ''seen_at'' of
        Inl e \<Rightarrow> Inl e
      | Inr (JStr s) \<Rightarrow>
          (case fromisoformat s of
             None \<Rightarrow> Inl ValueError
           | Some seen_at \<Rightarrow> dt_lt seen_at cutoff)
      | Inr _ \<Rightarrow> Inl TypeError)"

text \<open>
  The first loop of \<open>cleanup_old_entries\<close>; the handler catches \<open>KeyError\<close> and
  \<open>ValueError\<close>.
\<close>

fun collect_old ::
  "iso_parser \<Rightarrow> datetime \<Rightarrow> string list \<Rightarrow> (string \<times> json) list \<Rightarrow> py_error + string list" where
  "collect_old fromisoformat cutoff to_remove [] = Inr to_remove"
| "collect_old fromisoformat cutoff to_remove ((i, info) # items) =
     (case try_expired fromisoformat cutoff info of
        Inr old \<Rightarrow>
          collect_old fromisoformat cutoff (if old then to_remove @ [i] else to_remove) items
      | Inl e \<Rightarrow>
          if caught [KeyError, ValueError] e
          then collect_old fromisoformat cutoff to_remove items
          else Inl e)"

text \<open>The second loop: \<open>del papers[arxiv_id]\<close> for each collected id.\<close>

fun delete_all :: "(string \<times> json) list \<Rightarrow> string list \<Rightarrow> py_error + (string \<times> json) list" where
  "delete_all papers [] = Inr papers"
| "delete_all papers (i # to_remove) =
     (case py_delitem papers i of
        Inl e \<Rightarrow> Inl e
      | Inr papers' \<Rightarrow> delete_all papers' to_remove)"

text \<open>
  \<open>cleanup_old_entries\<close>; \<open>now\<close> is the reading of \<open>datetime.now()\<close>, a naive
  timestamp, in microseconds.  The result is the returned count with the manager
  after the call.
\<close>

definition cleanup_old_entries ::
  "iso_parser \<Rightarrow> int \<Rightarrow> storage \<Rightarrow> string \<Rightarrow> history_manager \<Rightarrow> py_error + (nat \<times> history_manager)" where
  "cleanup_old_entries fromisoformat now io now_iso h =
     (if retention_days h \<le> 0 then Inr (0, h)
      else case minus_days now (retention_days h) of
        Inl e \<Rightarrow> Inl e
      | Inr cutoff \<Rightarrow>
     (case py_getitem (data h) ''papers'' of
        Inl e \<Rightarrow> Inl e
      | Inr papers \<Rightarrow>
     (case py_items papers of
        Inl e \<Rightarrow> Inl e
      | Inr items \<Rightarrow>
     (case collect_old fromisoformat (Naive cutoff) [] items of
        Inl e \<Rightarrow> Inl e
      | Inr to_remove \<Rightarrow>
     (case delete_all items to_remove of
        Inl e \<Rightarrow> Inl e
      | Inr items' \<Rightarrow>
          let h' = h\<lparr> data := with_papers (data h) (JObj items') \<rparr>
          in if to_remove \<noteq> []
             then (case save io now_iso h' of
                     Inl e \<Rightarrow> Inl e
                   | Inr h'' \<Rightarrow> Inr (length to_remove, h''))
             else Inr (length to_remove, h'))))))"

text \<open>The entries of a ledger: the pairs of its \<open>papers\<close> object, when it has one.\<close>

definition papers_of :: "json \<Rightarrow> (string \<times> json) list option" where
  "papers_of d = (case py_getitem d ''papers'' of Inr (JObj ps) \<Rightarrow> Some ps | _ \<Rightarrow> None)"

text \<open>The entry that the manager's ledger holds for an id.\<close>

definition entry_of :: "history_manager \<Rightarrow> string \<Rightarrow> json option" where
  "entry_of h i = (case papers_of (data h) of None \<Rightarrow> None | Some ps \<Rightarrow> map_of ps i)"

text \<open>
  A run of calls \<open>mark_seen(i, ...)\<close> for one id, each with its own storage state,
  clock readings and title.
\<close>

fun mark_seen_repeat ::
  "(storage \<times> string \<times> string \<times> string) list \<Rightarrow> history_manager \<Rightarrow> string \<Rightarrow> py_error + history_manager" where
  "mark_seen_repeat [] h i = Inr h"
| "mark_seen_repeat ((io, seen_at, now_iso, ttl) # calls) h i =
     (case mark_seen io seen_at now_iso h i ttl of
        Inl e \<Rightarrow> Inl e
      | Inr h' \<Rightarrow> mark_seen_repeat calls h' i)"


text \<open>Managers for concrete inputs: a fresh one, and one whose file holds its ledger.\<close>

definition fresh_manager :: history_manager where
  "fresh_manager = \<lparr> data = empty_ledger, retention_days = 90, history_file = Missing, saves = 0 \<rparr>"

definition ledger_with :: "(string \<times> json) list \<Rightarrow> string \<Rightarrow> json" where
  "ledger_with ps t = JObj [(''papers'', JObj ps), (''last_updated'', JStr t)]"

definition manager_with :: "(string \<times> json) list \<Rightarrow> string \<Rightarrow> nat \<Rightarrow> history_manager" where
  "manager_with ps t n =
     \<lparr> data = ledger_with ps t, retention_days = 90,
       history_file = Holds (ledger_with ps t), saves = n \<rparr>"

text \<open>An entry that carries an id and a publication date and nothing else.\<close>

definition entry_pub :: "string \<Rightarrow> string \<Rightarrow> entry" where
  "entry_pub eid pub = (entry_with_id eid)\<lparr> e_published := Some pub \<rparr>"

text \<open>
  The timestamp that the \<open>seen_at\<close> of an entry parses to, when the entry has a
  \<open>seen_at\<close> string that parses.
\<close>

definition seen_at_time :: "iso_parser \<Rightarrow> json \<Rightarrow> datetime option" where
  "seen_at_time fromisoformat info =
     (case py_getitem info ''seen_at'' of Inr (JStr s) \<Rightarrow> fromisoformat s | _ \<Rightarrow> None)"

text \<open>
  An entry is older than a cutoff when its \<open>seen_at\<close> parses to a naive timestamp
  strictly before it.
\<close>

definition older :: "iso_parser \<Rightarrow> int \<Rightarrow> json \<Rightarrow> bool" where
  "older fromisoformat cutoff info =
     (case seen_at_time fromisoformat info of Some (Naive t) \<Rightarrow> t < cutoff | _ \<Rightarrow> False)"

text \<open>
  The entries on which the \<open>try\<close> of \<open>cleanup_old_entries\<close> raises nothing that its
  handler does not catch: a \<open>dict\<close> with no \<open>seen_at\<close>, or with a \<open>seen_at\<close>
  string that does not parse or parses to a naive timestamp.
\<close>

definition entry_readable :: "iso_parser \<Rightarrow> json \<Rightarrow> bool" where
  "entry_readable fromisoformat info =
     (case info of
        JObj kvs \<Rightarrow>
          (case map_of kvs ''seen_at'' of
             None \<Rightarrow> True
           | Some (JStr s) \<Rightarrow> (case fromisoformat s of Some (Aware u) \<Rightarrow> False | _ \<Rightarrow> True)
           | Some _ \<Rightarrow> False)
      | _ \<Rightarrow> False)"


text \<open>Four entries: 91 days old, 90 days old, without a date, with a bad date.\<close>

definition sample_entries :: "(string \<times> json) list" where
  "sample_entries =
     [(''old'', seen_entry ''O'' ''2023-10-21T00:00:00''),
      (''edge'', seen_entry ''E'' ''2023-10-22T00:00:00''),
      (''nodate'', JObj [(''title'', JStr ''N'')]),
      (''bad'', seen_entry ''B'' ''not a date'')]"

section \<open>The summarization run (\<open>src/claude_runner.py\<close>)\<close>

text \<open>
  What \<open>subprocess.run\<close> does in \<open>ClaudeRunner.run\<close>: the process ends with an exit
  code, or the call raises \<open>TimeoutExpired\<close>, \<open>FileNotFoundError\<close> (the CLI is
  missing) or another exception.
\<close>

datatype process_result = Exited int | TimeoutExpired | CliNotFound | OtherFailure

text \<open>
  The surroundings of one run: \<open>prompt_error\<close> is the exception, if any, raised
  while the prompt is built and written, before the \<open>try\<close>; \<open>extracted_ids\<close> is the
  list that \<open>_extract_selected_ids\<close> reads from the report.
\<close>

record runner_env =
  prompt_error :: "py_error option"
  process :: process_result
  extracted_ids :: "json list"

definition run :: "runner_env \<Rightarrow> py_error + (bool \<times> json list)" where
  "run r =
     (case prompt_error r of
        Some e \<Rightarrow> Inl e
      | None \<Rightarrow>
          (case process r of
             Exited returncode \<Rightarrow>
               if returncode \<noteq> 0 then Inr (False, []) else Inr (True, extracted_ids r)
           | TimeoutExpired \<Rightarrow> Inr (False, [])
           | CliNotFound \<Rightarrow> Inr (False, [])
           | OtherFailure \<Rightarrow> Inr (False, [])))"

section \<open>The pipeline (\<open>main.py\<close>)\<close>

text \<open>The settings that \<open>main\<close> reads from a loaded configuration.\<close>

record config =
  history_retention_days :: int
  days_recent :: int
  num_papers :: int

text \<open>
  \<open>load_config\<close> raises \<open>FileNotFoundError\<close> or \<open>ValueError\<close>, or returns the
  configuration.
\<close>

datatype config_result = ConfigMissing | ConfigInvalid | ConfigLoaded config

text \<open>
  Everything outside the program that one run of \<open>main\<close> meets: the flag
  \<open>--dry-run\<close>, the date parser, the history file and whether it can be written, the
  readings of the clock in \<open>cleanup_old_entries\<close>, \<open>fetch_recent\<close>, \<open>filter_by_date\<close> and
  \<open>mark_multiple_seen\<close>, the response of the catalog to the query, the exception, if
  any, raised by \<open>save_candidates\<close>, and the surroundings of the summarization run.
\<close>

record world =
  dry_run :: bool
  date_parser :: iso_parser
  history_at_start :: file_state
  storage_state :: storage
  now_cleanup :: int
  iso_cleanup :: string
  now_query :: int
  now_fetch :: int
  iso_mark :: string
  iso_mark_save :: string
  catalog_response :: "entry list option"
  candidates_error :: "py_error option"
  runner :: runner_env

datatype notification = NoPapers | SummaryFailed | DigestReady int

text \<open>
  The first part of \<open>main\<close>, up to the dry-run check: either \<open>main\<close> returns there, or
  it goes on with the manager and the unseen papers.
\<close>

datatype selection =
    Finished int history_manager "notification list"
  | Candidates history_manager "paper list"

definition select_candidates :: "config \<Rightarrow> world \<Rightarrow> py_error + selection" where
  "select_candidates cfg w =
     (case init (history_at_start w) (history_retention_days cfg) of
        Inl e \<Rightarrow> Inl e
      | Inr history0 \<Rightarrow>
     (case cleanup_old_entries (date_parser w) (now_cleanup w) (storage_state w)
             (iso_cleanup w) history0 of
        Inl e \<Rightarrow> Inl e
      | Inr (removed, history) \<Rightarrow>
     (case fetch_recent (date_parser w) (now_query w) (now_fetch w) (days_recent cfg)
             (catalog_response w) of
        Inl e \<Rightarrow> Inl e
      | Inr papers \<Rightarrow>
          if papers = [] then Inr (Finished 0 history [NoPapers])
          else
     (case filter_unseen history papers of
        Inl e \<Rightarrow> Inl e
      | Inr unseen_papers \<Rightarrow>
          if unseen_papers = [] then Inr (Finished 0 history [NoPapers])
          else if dry_run w then Inr (Finished 0 history [])
          else Inr (Candidates history unseen_papers)))))"

text \<open>
  The second part of \<open>main\<close>, from \<open>save_candidates\<close> on.  The result is the exit
  code, the manager at the end and the notifications sent.  Writing the HTML page
  and sending a notification change neither the manager nor the exit code.
\<close>

definition summarize ::
  "config \<Rightarrow> world \<Rightarrow> history_manager \<Rightarrow> paper list
     \<Rightarrow> py_error + (int \<times> history_manager \<times> notification list)" where
  "summarize cfg w history unseen_papers =
     (case candidates_error w of
        Some e \<Rightarrow> Inl e
      | None \<Rightarrow>
     (case run (runner w) of
        Inl e \<Rightarrow> Inl e
      | Inr (success, selected_ids) \<Rightarrow>
          if \<not> success then Inr (1, history, [SummaryFailed])
          else if selected_ids \<noteq> [] then
            (case mark_multiple_seen (storage_state w) (iso_mark w) (iso_mark_save w) history
                    (map (\<lambda>p. (arxiv_id p, title p))
                       (filter (\<lambda>p. JStr (arxiv_id p) \<in> set selected_ids) unseen_papers)) of
               Inl e \<Rightarrow> Inl e
             | Inr history' \<Rightarrow> Inr (0, history', [DigestReady (int (length selected_ids))]))
          else Inr (0, history, [DigestReady (num_papers cfg)])))"

text \<open>
  \<open>main\<close>: the exit code, the history file at the end, and the notifications.
\<close>

definition main :: "config_result \<Rightarrow> world \<Rightarrow> py_error + (int \<times> file_state \<times> notification list)" where
  "main loaded w =
     (case loaded of
        ConfigMissing \<Rightarrow> Inr (1, history_at_start w, [])
      | ConfigInvalid \<Rightarrow> Inr (1, history_at_start w, [])
      | ConfigLoaded cfg \<Rightarrow>
          (case select_candidates cfg w of
             Inl e \<Rightarrow> Inl e
           | Inr (Finished code history notes) \<Rightarrow> Inr (code, history_file history, notes)
           | Inr (Candidates history unseen_papers) \<Rightarrow>
               (case summarize cfg w history unseen_papers of
                  Inl e \<Rightarrow> Inl e
                | Inr (code, history', notes) \<Rightarrow> Inr (code, history_file history', notes))))"

text \<open>
  A run for concrete inputs: a ledger of four entries on file, two recent papers in
  the catalog, and a summarization process that ends as given.
\<close>

definition sample_world :: "process_result \<Rightarrow> world" where
  "sample_world p =
     \<lparr> dry_run = False, date_parser = fromisoformat_basic,
       history_at_start = Holds (ledger_with sample_entries ''2024-01-01T00:00:00''),
       storage_state = Writable,
       now_cleanup = sample_now, iso_cleanup = ''2024-01-20T00:00:00'',
       now_query = sample_now, now_fetch = sample_now, iso_mark = ''2024-01-20T00:10:00'',
       iso_mark_save = ''2024-01-20T00:10:01'',
       catalog_response = Some [entry_pub ''http://arxiv.org/abs/2401.00001v1'' ''2024-01-15T12:34:56Z'',
                        entry_pub ''http://arxiv.org/abs/2401.00002v1'' ''2024-01-16T12:34:56Z''],
       candidates_error = None,
       runner = \<lparr> prompt_error = None, process = p, extracted_ids = [JStr ''2401.00001''] \<rparr> \<rparr>"

definition sample_config :: config where
  "sample_config = \<lparr> history_retention_days = 90, days_recent = 7, num_papers = 2 \<rparr>"


text \<open>
  Two ledgers for concrete inputs: one entry whose \<open>seen_at\<close> carries a UTC offset;
  and an entry 91 days old beside an entry whose \<open>seen_at\<close> is \<open>null\<close>.
\<close>

definition aware_entries :: "(string \<times> json) list" where
  "aware_entries = [(''aw'', seen_entry ''A'' ''2023-10-21T00:00:00+00:00'')]"

definition null_entries :: "(string \<times> json) list" where
  "null_entries =
     [(''old'', seen_entry ''O'' ''2023-10-21T00:00:00''),
      (''x'', JObj [(''title'', JStr ''X''), (''seen_at'', JNull)])]"

section \<open>Handlers\<close>

lemma caught_simps [simp]:
  "caught [ValueError, AttributeError] ValueError"
  "\<not> caught [ValueError, AttributeError] TypeError"
  "caught [KeyError, ValueError] KeyError"
  "caught [KeyError, ValueError] ValueError"
  "\<not> caught [KeyError, ValueError] TypeError"
  "caught [JSONDecodeError, OSError] JSONDecodeError"
  "caught [JSONDecodeError, OSError] OSError"
  "\<not> caught [JSONDecodeError, OSError] UnicodeDecodeError"
  by (simp_all add: caught_def is_subclass_def)

section \<open>Properties of the string functions\<close>

lemma split_aux_no_last:
  "sep \<noteq> [] \<Longrightarrow> last sep \<notin> set t \<Longrightarrow> py_split_aux sep cur t = [rev cur @ t]"
proof (induction t arbitrary: cur)
  case Nil
  then show ?case by simp
next
  case (Cons c t)
  have "\<not> prefix sep (c # t)"
  proof
    assume "prefix sep (c # t)"
    then have "set sep \<subseteq> set (c # t)" by (rule set_mono_prefix)
    moreover have "last sep \<in> set sep" using Cons.prems(1) by simp
    ultimately show False using Cons.prems(2) by blast
  qed
  then show ?case using Cons by simp
qed

lemma prefix_append_no_last:
  assumes "sep \<noteq> []" "last sep \<notin> set t"
  shows "prefix sep (s @ t) \<longleftrightarrow> prefix sep s"
proof
  assume p: "prefix sep (s @ t)"
  show "prefix sep s"
  proof (rule ccontr)
    assume n: "\<not> prefix sep s"
    with p obtain us where us: "sep = s @ us" "prefix us t"
      by (auto simp: prefix_append)
    with n have "us \<noteq> []" by auto
    then have "last sep = last us" "last us \<in> set us" using us by simp_all
    moreover have "set us \<subseteq> set t" using us(2) by (rule set_mono_prefix)
    ultimately show False using assms(2) by auto
  qed
next
  assume "prefix sep s" then show "prefix sep (s @ t)" by simp
qed

lemma drop_append_le: "n \<le> length xs \<Longrightarrow> drop n (xs @ t) = drop n xs @ t"
  by simp

lemma split_aux_nonempty: "py_split_aux sep cur u \<noteq> []"
  by (induction sep cur u rule: py_split_aux.induct) auto

text \<open>
  Text appended to a string joins its last piece, when it cannot complete a match of
  the separator.
\<close>

lemma split_aux_append_last:
  "sep \<noteq> [] \<Longrightarrow> last sep \<notin> set t \<Longrightarrow>
   last (py_split_aux sep cur (s @ t)) = last (py_split_aux sep cur s) @ t"
proof (induction sep cur s rule: py_split_aux.induct)
  case (1 sep cur)
  then show ?case by (simp add: split_aux_no_last)
next
  case (2 sep cur c s)
  have pe: "prefix sep (c # s @ t) \<longleftrightarrow> prefix sep (c # s)"
    using prefix_append_no_last[OF "2.prems", of "c # s"] by simp
  show ?case
  proof (cases "prefix sep (c # s)")
    case True
    then have le: "length sep \<le> length (c # s)" by (rule prefix_length_le)
    have d: "drop (length sep) (c # s @ t) = drop (length sep) (c # s) @ t"
      using drop_append_le[OF le, of t] by (simp only: append_Cons)
    have "last (py_split_aux sep cur (c # s @ t))
           = last (py_split_aux sep [] (drop (length sep) (c # s) @ t))"
      using True pe "2.prems"(1) d by (simp add: split_aux_nonempty del: drop_Cons')
    also have "\<dots> = last (py_split_aux sep [] (drop (length sep) (c # s))) @ t"
      using "2.IH"(1) True "2.prems" by blast
    also have "\<dots> = last (py_split_aux sep cur (c # s)) @ t"
      using True "2.prems"(1) by (simp add: split_aux_nonempty)
    finally show ?thesis by simp
  next
    case False
    then show ?thesis using pe "2.prems" "2.IH"(2) by simp
  qed
qed

lemma find_first_char_hit:
  "c \<notin> set a \<Longrightarrow> find_first [c] (a @ c # b) = Some (a, b)"
  by (induction a) auto

lemma rsplit1_last_char:
  "c \<notin> set b \<Longrightarrow> py_rsplit1 [c] (a @ c # b) = [a, b]"
  using find_first_char_hit[of c "rev b" "rev a"] by (simp add: py_rsplit1_def)

section \<open>Identifier normalisation\<close>

lemma entry_arxiv_id_cut:
  "last (py_split ''/abs/'' eid) = a @ CHR ''v'' # b \<Longrightarrow> CHR ''v'' \<notin> set b \<Longrightarrow>
   entry_arxiv_id eid = a"
  by (simp add: entry_arxiv_id_def rsplit1_last_char)

lemma entry_arxiv_id_keep:
  "CHR ''v'' \<notin> set (last (py_split ''/abs/'' eid)) \<Longrightarrow>
   entry_arxiv_id eid = last (py_split ''/abs/'' eid)"
  by (simp add: entry_arxiv_id_def)

lemma not_digit_v: "\<not> is_digit (CHR ''v'')"
  by (simp add: is_digit_def)

lemma not_digit_slash: "\<not> is_digit (CHR ''/'')"
  by (simp add: is_digit_def)

lemma digits_no_v: "is_digits d \<Longrightarrow> CHR ''v'' \<notin> set d"
  using not_digit_v by (auto simp: is_digits_def list_all_iff)

lemma digits_no_slash: "is_digits d \<Longrightarrow> CHR ''/'' \<notin> set d"
  using not_digit_slash by (auto simp: is_digits_def list_all_iff)

lemma entry_arxiv_id_version:
  assumes "is_digits d"
  shows "entry_arxiv_id (base @ ''v'' @ d) = last (py_split ''/abs/'' base)"
proof -
  have v: "CHR ''v'' \<notin> set d" using assms by (rule digits_no_v)
  have sl: "last ''/abs/'' \<notin> set (''v'' @ d)"
    using digits_no_slash[OF assms] by simp
  have "last (py_split_aux ''/abs/'' [] (base @ (''v'' @ d)))
         = last (py_split_aux ''/abs/'' [] base) @ (''v'' @ d)"
    by (rule split_aux_append_last[OF _ sl]) simp
  then have "last (py_split ''/abs/'' (base @ ''v'' @ d))
         = last (py_split ''/abs/'' base) @ CHR ''v'' # d"
    by (simp add: py_split_def)
  then show ?thesis using v by (rule entry_arxiv_id_cut)
qed

lemma from_entry_id: "e_id e = Some eid \<Longrightarrow> \<exists>p. from_entry e = Inr p \<and> arxiv_id p = entry_arxiv_id eid"
  by (simp add: from_entry_def)

section \<open>The recency filter\<close>

lemma filter_loop_result:
  "filter_loop f c acc ps = Inr out \<Longrightarrow> out = acc @ filter (kept f c) ps"
proof (induction ps arbitrary: acc)
  case Nil
  then show ?case by simp
next
  case (Cons p ps)
  show ?case
  proof (cases "try_recent f c p")
    case (Inl e)
    with Cons.prems have ve: "caught [ValueError, AttributeError] e"
      and r: "filter_loop f c (acc @ [p]) ps = Inr out"
      by (auto split: if_splits)
    from Cons.IH[OF r] ve Inl show ?thesis by (simp add: kept_def)
  next
    case (Inr keep)
    with Cons.prems have r: "filter_loop f c (if keep then acc @ [p] else acc) ps = Inr out"
      by simp
    from Cons.IH[OF r] Inr show ?thesis by (simp add: kept_def)
  qed
qed

lemma try_recent_aware:
  "try_recent f (Aware c) p =
     (case parse_published f p of
        None \<Rightarrow> Inl ValueError
      | Some (Naive t) \<Rightarrow> Inl TypeError
      | Some (Aware u) \<Rightarrow> Inr (u \<ge> c))"
  by (simp add: try_recent_def dt_ge_def split: option.splits datetime.splits)

lemma filter_loop_returns:
  "\<forall>p \<in> set ps. \<forall>t. parse_published f p \<noteq> Some (Naive t) \<Longrightarrow>
   \<exists>out. filter_loop f (Aware c) acc ps = Inr out"
proof (induction ps arbitrary: acc)
  case Nil
  then show ?case by simp
next
  case (Cons p ps)
  then have "\<forall>t. parse_published f p \<noteq> Some (Naive t)" by simp
  then have "try_recent f (Aware c) p = Inl ValueError \<or> (\<exists>b. try_recent f (Aware c) p = Inr b)"
    by (cases "parse_published f p") (auto simp: try_recent_aware split: datetime.splits)
  then show ?case using Cons by auto
qed

lemma filter_loop_naive:
  "p \<in> set ps \<Longrightarrow> parse_published f p = Some (Naive t) \<Longrightarrow>
   filter_loop f (Aware c) acc ps = Inl TypeError"
proof (induction ps arbitrary: acc)
  case Nil
  then show ?case by simp
next
  case (Cons q qs)
  show ?case
  proof (cases "parse_published f q")
    case None
    then have "try_recent f (Aware c) q = Inl ValueError" by (simp add: try_recent_aware)
    moreover from None Cons.prems have "p \<in> set qs" by auto
    ultimately show ?thesis using Cons.IH Cons.prems(2) by simp
  next
    case (Some d)
    show ?thesis
    proof (cases d)
      case (Naive x)
      with Some have "try_recent f (Aware c) q = Inl TypeError" by (simp add: try_recent_aware)
      then show ?thesis by simp
    next
      case (Aware u)
      with Some have "try_recent f (Aware c) q = Inr (u \<ge> c)" by (simp add: try_recent_aware)
      moreover from Some Aware Cons.prems have "p \<in> set qs" by auto
      ultimately show ?thesis using Cons.IH Cons.prems(2) by simp
    qed
  qed
qed

lemma kept_unparsable: "parse_published f p = None \<Longrightarrow> kept f c p"
  by (simp add: kept_def try_recent_def)

lemma kept_aware: "parse_published f p = Some (Aware u) \<Longrightarrow> kept f (Aware c) p \<longleftrightarrow> u \<ge> c"
  by (simp add: kept_def try_recent_aware)

lemma minus_days_value: "minus_days t days = Inr c \<Longrightarrow> c = t - days * us_per_day"
  by (auto simp: minus_days_def Let_def split: if_splits)

lemma filter_by_date_result:
  assumes "0 < days" and "filter_by_date f now days ps = Inr out"
  shows "out = filter (kept f (Aware (now - days * us_per_day))) ps"
proof -
  from assms obtain c where c: "minus_days now days = Inr c"
    and l: "filter_loop f (Aware c) [] ps = Inr out"
    by (auto simp: filter_by_date_def split: sum.splits)
  from filter_loop_result[OF l] minus_days_value[OF c] show ?thesis by simp
qed

lemma filter_by_date_returns:
  assumes "minus_days now days = Inr c"
    and "\<forall>p \<in> set ps. \<forall>t. parse_published f p \<noteq> Some (Naive t)"
  shows "\<exists>out. filter_by_date f now days ps = Inr out"
  using assms(1) filter_loop_returns[OF assms(2), of c "[]"]
  by (auto simp: filter_by_date_def)

lemma filter_by_date_naive:
  assumes "0 < days" and "minus_days now days = Inr c"
    and "p \<in> set ps" and "parse_published f p = Some (Naive t)"
  shows "filter_by_date f now days ps = Inl TypeError"
  using assms(1,2) filter_loop_naive[OF assms(3,4), of c "[]"]
  by (simp add: filter_by_date_def)

text \<open>
  Claim C2.  For every \<open>days > 0\<close> and every list of papers: the list that
  \<open>filter_by_date\<close> returns holds every paper of the input whose \<open>published\<close> does not
  parse, and holds no paper whose \<open>published\<close> parses to an instant strictly before
  \<open>now - days\<close>.  It returns a list whenever \<open>now - days\<close> is a timestamp and no
  \<open>published\<close> parses to a timestamp without timezone.
\<close>

theorem filter_by_date_fail_open:
  assumes "0 < days"
  shows "(\<forall>out. filter_by_date f now days ps = Inr out \<longrightarrow>
            (\<forall>p \<in> set ps. parse_published f p = None \<longrightarrow> p \<in> set out) \<and>
            (\<forall>p \<in> set ps. \<forall>u. parse_published f p = Some (Aware u) \<and> u < now - days * us_per_day
                 \<longrightarrow> p \<notin> set out)) \<and>
         ((\<exists>c. minus_days now days = Inr c) \<and>
          (\<forall>p \<in> set ps. \<forall>t. parse_published f p \<noteq> Some (Naive t))
            \<longrightarrow> (\<exists>out. filter_by_date f now days ps = Inr out))"
proof (intro conjI allI impI ballI)
  fix out p
  assume r: "filter_by_date f now days ps = Inr out" and p: "p \<in> set ps"
    and n: "parse_published f p = None"
  from filter_by_date_result[OF assms r] p kept_unparsable[OF n]
  show "p \<in> set out" by simp
next
  fix out p u
  assume r: "filter_by_date f now days ps = Inr out" and p: "p \<in> set ps"
    and a: "parse_published f p = Some (Aware u) \<and> u < now - days * us_per_day"
  from a kept_aware[of f p u "now - days * us_per_day"]
  have "\<not> kept f (Aware (now - days * us_per_day)) p" by simp
  with filter_by_date_result[OF assms r] show "p \<notin> set out" by simp
next
  assume "(\<exists>c. minus_days now days = Inr c) \<and>
          (\<forall>p \<in> set ps. \<forall>t. parse_published f p \<noteq> Some (Naive t))"
  then show "\<exists>out. filter_by_date f now days ps = Inr out"
    using filter_by_date_returns by blast
qed


theorem filter_by_date_fail_open_witness:
  "(0::int) < 7 \<and>
   (\<exists>out. filter_by_date fromisoformat_basic sample_now 7
             [paper_of ''a'' ''2024-01-15T12:34:56Z'', paper_of ''b'' ''no date'',
              paper_of ''c'' ''2024-01-01T12:34:56Z''] = Inr out \<and>
          paper_of ''b'' ''no date'' \<in> set out \<and>
          paper_of ''c'' ''2024-01-01T12:34:56Z'' \<notin> set out)"
proof -
  let ?ps = "[paper_of ''a'' ''2024-01-15T12:34:56Z'', paper_of ''b'' ''no date'',
              paper_of ''c'' ''2024-01-01T12:34:56Z'']"
  have d: "(0::int) < 7" by simp
  have "minus_days sample_now 7 = Inr 63840700800000000" by code_simp
  then have m: "\<exists>c. minus_days sample_now 7 = Inr c" by blast
  have pa: "parse_published fromisoformat_basic (paper_of ''a'' ''2024-01-15T12:34:56Z'')
              = Some (Aware 63840918896000000)" by code_simp
  have pb: "parse_published fromisoformat_basic (paper_of ''b'' ''no date'') = None"
    by code_simp
  have pc: "parse_published fromisoformat_basic (paper_of ''c'' ''2024-01-01T12:34:56Z'')
              = Some (Aware 63839709296000000)" by code_simp
  have old: "(63839709296000000::int) < sample_now - 7 * us_per_day" by code_simp
  have nn: "\<forall>p \<in> set ?ps. \<forall>t. parse_published fromisoformat_basic p \<noteq> Some (Naive t)"
    using pa pb pc by simp
  note T = filter_by_date_fail_open [OF d, of fromisoformat_basic sample_now ?ps]
  from T m nn obtain out where
    out: "filter_by_date fromisoformat_basic sample_now 7 ?ps = Inr out" by blast
  with T have k: "\<forall>p \<in> set ?ps. parse_published fromisoformat_basic p = None \<longrightarrow> p \<in> set out"
    and r: "\<forall>p \<in> set ?ps. \<forall>u. parse_published fromisoformat_basic p = Some (Aware u) \<and>
                u < sample_now - 7 * us_per_day \<longrightarrow> p \<notin> set out"
    by blast+
  from k pb have "paper_of ''b'' ''no date'' \<in> set out" by simp
  moreover from r pc old have "paper_of ''c'' ''2024-01-01T12:34:56Z'' \<notin> set out" by simp
  ultimately show ?thesis using d out by blast
qed

text \<open>
  Claim C9 says that \<open>filter_by_date\<close> returns a list for every input.  It does not: a
  \<open>published\<close> that parses to a timestamp without timezone is compared with the aware
  cutoff, and the \<open>TypeError\<close> of that comparison is not among the exceptions the
  handler catches.
\<close>

theorem filter_by_date_naive_raises:
  "filter_by_date fromisoformat_basic sample_now 7
     [paper_of ''2401.12345'' ''2024-01-15T12:34:56''] = Inl TypeError"
  by code_simp

text \<open>
  Claim C4.  The query builder returns \<open>(cat:cs.LG)\<close> for the single category
  \<open>cs.LG\<close> and no keyword; for no category and the keyword \<open>large language model\<close> it
  returns the parenthesised disjunction of the quoted title term and the quoted
  abstract term; for the category \<open>cs.LG\<close> and the keyword \<open>llm\<close> it returns the
  category group and the keyword group joined by \<open>AND\<close>; and for two empty lists it
  returns the fallback \<open>cat:cs.LG\<close>.
\<close>

theorem get_arxiv_query_composition:
  \<open>get_arxiv_query \<lparr>cfg_categories = [''cs.LG''], cfg_keywords = []\<rparr> = ''(cat:cs.LG)'' \<and>
   get_arxiv_query \<lparr>cfg_categories = [], cfg_keywords = [''large language model'']\<rparr>
     = ''(ti:"large language model" OR abs:"large language model")'' \<and>
   get_arxiv_query \<lparr>cfg_categories = [''cs.LG''], cfg_keywords = [''llm'']\<rparr>
     = ''(cat:cs.LG) AND (ti:llm OR abs:llm)'' \<and>
   get_arxiv_query \<lparr>cfg_categories = [], cfg_keywords = []\<rparr> = ''cat:cs.LG''\<close>
  by (simp add: get_arxiv_query_def kw_terms_def)

text \<open>
  Claim C5.  Two entries whose ids are the same text followed by a revision suffix
  (\<open>v\<close> and digits) are given the same \<open>arxiv_id\<close> by \<open>Paper.from_entry\<close>: the
  identifier of the common text, with the suffix gone.
\<close>

theorem from_entry_revisions_collapse:
  assumes "is_digits d1" and "is_digits d2"
    and "e_id e1 = Some (base @ ''v'' @ d1)" and "e_id e2 = Some (base @ ''v'' @ d2)"
  shows "\<exists>p1 p2. from_entry e1 = Inr p1 \<and> from_entry e2 = Inr p2 \<and>
           arxiv_id p1 = arxiv_id p2 \<and> arxiv_id p1 = last (py_split ''/abs/'' base)"
  using from_entry_id[OF assms(3)] from_entry_id[OF assms(4)]
    entry_arxiv_id_version[OF assms(1), of base] entry_arxiv_id_version[OF assms(2), of base]
  by auto

theorem from_entry_revisions_collapse_witness:
  "is_digits ''1'' \<and> is_digits ''2'' \<and>
   (\<exists>p1 p2. from_entry (entry_with_id ''http://arxiv.org/abs/2401.12345v1'') = Inr p1 \<and>
            from_entry (entry_with_id ''http://arxiv.org/abs/2401.12345v2'') = Inr p2 \<and>
            arxiv_id p1 = arxiv_id p2 \<and> arxiv_id p1 = ''2401.12345'')"
proof -
  have d: "is_digits ''1''" "is_digits ''2''"
    by (simp_all add: is_digits_def is_digit_def)
  have s: "last (py_split ''/abs/'' ''http://arxiv.org/abs/2401.12345'') = ''2401.12345''"
    by (simp add: py_split_def)
  show ?thesis
    using d from_entry_revisions_collapse [OF d,
        of "entry_with_id ''http://arxiv.org/abs/2401.12345v1''" "''http://arxiv.org/abs/2401.12345''"
           "entry_with_id ''http://arxiv.org/abs/2401.12345v2''"]
    by (simp add: entry_with_id_def s)
qed

text \<open>
  Claim C10.  \<open>Paper.from_entry\<close> cuts the identifier (the piece of the id after
  \<open>/abs/\<close>) before its last \<open>v\<close>, wherever that \<open>v\<close> stands, and keeps an
  identifier without a \<open>v\<close> as it is.
\<close>

theorem from_entry_cuts_at_last_v:
  assumes "e_id e = Some eid"
  shows "\<exists>p. from_entry e = Inr p \<and>
           (\<forall>a b. last (py_split ''/abs/'' eid) = a @ CHR ''v'' # b \<and> CHR ''v'' \<notin> set b
                  \<longrightarrow> arxiv_id p = a) \<and>
           (CHR ''v'' \<notin> set (last (py_split ''/abs/'' eid))
                  \<longrightarrow> arxiv_id p = last (py_split ''/abs/'' eid))"
  using from_entry_id[OF assms] entry_arxiv_id_cut[of eid] entry_arxiv_id_keep[of eid]
  by auto

theorem from_entry_cuts_at_last_v_witness:
  "(\<exists>p. from_entry (entry_with_id ''http://arxiv.org/abs/solv-int/9901001'') = Inr p \<and>
        arxiv_id p = ''sol'') \<and>
   (\<exists>p. from_entry (entry_with_id ''http://arxiv.org/abs/2401.12345'') = Inr p \<and>
        arxiv_id p = ''2401.12345'')"
proof -
  have s1: "last (py_split ''/abs/'' ''http://arxiv.org/abs/solv-int/9901001'')
              = ''sol'' @ CHR ''v'' # ''-int/9901001''"
    by (simp add: py_split_def)
  have s2: "last (py_split ''/abs/'' ''http://arxiv.org/abs/2401.12345'') = ''2401.12345''"
    by (simp add: py_split_def)
  have e1: "e_id (entry_with_id ''http://arxiv.org/abs/solv-int/9901001'')
              = Some ''http://arxiv.org/abs/solv-int/9901001''"
    and e2: "e_id (entry_with_id ''http://arxiv.org/abs/2401.12345'')
              = Some ''http://arxiv.org/abs/2401.12345''"
    by (simp_all add: entry_with_id_def)
  from from_entry_cuts_at_last_v [OF e1] obtain p where
    p: "from_entry (entry_with_id ''http://arxiv.org/abs/solv-int/9901001'') = Inr p"
       "\<forall>a b. last (py_split ''/abs/'' ''http://arxiv.org/abs/solv-int/9901001'') = a @ CHR ''v'' # b
              \<and> CHR ''v'' \<notin> set b \<longrightarrow> arxiv_id p = a"
    by blast
  have "arxiv_id p = ''sol''"
    using p(2) s1 by (elim allE[of _ "''sol''"] allE[of _ "''-int/9901001''"]) simp
  with p(1) have A: "\<exists>p. from_entry (entry_with_id ''http://arxiv.org/abs/solv-int/9901001'') = Inr p \<and>
        arxiv_id p = ''sol''" by blast
  from from_entry_cuts_at_last_v [OF e2] obtain q where
    q: "from_entry (entry_with_id ''http://arxiv.org/abs/2401.12345'') = Inr q"
       "CHR ''v'' \<notin> set (last (py_split ''/abs/'' ''http://arxiv.org/abs/2401.12345''))
          \<longrightarrow> arxiv_id q = last (py_split ''/abs/'' ''http://arxiv.org/abs/2401.12345'')"
    by blast
  have "arxiv_id q = ''2401.12345''" using q(2) by (simp add: s2)
  with q(1) have B: "\<exists>p. from_entry (entry_with_id ''http://arxiv.org/abs/2401.12345'') = Inr p \<and>
        arxiv_id p = ''2401.12345''" by blast
  from A B show ?thesis by blast
qed

section \<open>The ledger\<close>

lemma papers_of_SomeD:
  "papers_of d = Some ps \<Longrightarrow> \<exists>kvs. d = JObj kvs \<and> map_of kvs ''papers'' = Some (JObj ps)"
  by (auto simp: papers_of_def py_getitem_def split: json.splits option.splits sum.splits)

lemma papers_of_JObj:
  "papers_of (JObj kvs) = (case map_of kvs ''papers'' of Some (JObj ps) \<Rightarrow> Some ps | _ \<Rightarrow> None)"
  by (auto simp: papers_of_def py_getitem_def split: json.splits option.splits)

lemma papers_of_with_papers:
  "papers_of d = Some ps \<Longrightarrow> papers_of (with_papers d (JObj ps')) = Some ps'"
  by (auto dest!: papers_of_SomeD simp: with_papers_def papers_of_JObj update_conv')

lemma papers_of_last_updated:
  "py_setitem d ''last_updated'' v = Inr d' \<Longrightarrow> papers_of d' = papers_of d"
  by (auto simp: py_setitem_def papers_of_JObj update_conv' split: json.splits)

lemma is_seen_papers:
  "papers_of (data h) = Some ps \<Longrightarrow> is_seen h k = Inr (k \<in> fst ` set ps)"
  by (auto dest!: papers_of_SomeD simp: is_seen_def py_getitem_def py_contains_def)

lemma save_papers: "save io now_iso h = Inr h' \<Longrightarrow> papers_of (data h') = papers_of (data h)"
  by (auto simp: save_def split: if_splits sum.splits dest: papers_of_last_updated)

lemma save_effect:
  "save io now_iso h = Inr h' \<Longrightarrow>
   saves h' = saves h + 1 \<and> history_file h' = Holds (data h') \<and> retention_days h' = retention_days h"
  by (auto simp: save_def split: if_splits sum.splits)

lemma save_returns:
  "io = Writable \<Longrightarrow> data h = JObj kvs \<Longrightarrow> \<exists>h'. save io now_iso h = Inr h'"
  by (simp add: save_def py_setitem_def)

lemma mark_seen_papers:
  assumes "mark_seen io seen_at now_iso h i ttl = Inr h'"
  shows "\<exists>ps. papers_of (data h) = Some ps \<and>
              papers_of (data h') = Some (AList.update i (seen_entry ttl seen_at) ps)"
proof -
  from assms obtain papers papers' where
    g: "py_getitem (data h) ''papers'' = Inr papers"
    and s: "py_setitem papers i (seen_entry ttl seen_at) = Inr papers'"
    and sv: "save io now_iso (h\<lparr>data := with_papers (data h) papers'\<rparr>) = Inr h'"
    by (auto simp: mark_seen_def split: sum.splits)
  from s obtain ps where ps: "papers = JObj ps"
    "papers' = JObj (AList.update i (seen_entry ttl seen_at) ps)"
    by (auto simp: py_setitem_def split: json.splits)
  from g ps have p: "papers_of (data h) = Some ps" by (simp add: papers_of_def)
  from save_papers[OF sv] papers_of_with_papers[OF p] ps p show ?thesis by simp
qed

lemma mark_seen_returns:
  assumes "io = Writable" and "papers_of (data h) = Some ps"
  shows "\<exists>h'. mark_seen io seen_at now_iso h i ttl = Inr h'"
proof -
  from papers_of_SomeD[OF assms(2)] obtain kvs where
    k: "data h = JObj kvs" "map_of kvs ''papers'' = Some (JObj ps)" by blast
  have "\<exists>h'. save io now_iso
          (h\<lparr>data := with_papers (data h) (JObj (AList.update i (seen_entry ttl seen_at) ps))\<rparr>) = Inr h'"
    using assms(1) k by (intro save_returns) (simp_all add: with_papers_def)
  then show ?thesis using k by (simp add: mark_seen_def py_getitem_def py_setitem_def)
qed

lemma mark_seen_is_seen:
  assumes "mark_seen io seen_at now_iso h i ttl = Inr h'"
  shows "is_seen h' i = Inr True"
  using mark_seen_papers[OF assms] by (auto simp: is_seen_papers dom_update)

lemma mark_seen_entry:
  assumes "mark_seen io seen_at now_iso h i ttl = Inr h'"
  shows "entry_of h' i = Some (seen_entry ttl seen_at)"
    and "k \<noteq> i \<Longrightarrow> entry_of h' k = entry_of h k"
  using mark_seen_papers[OF assms] by (auto simp: entry_of_def update_conv')

lemma mark_seen_again_membership:
  assumes "is_seen h i = Inr True" and "mark_seen io seen_at now_iso h i ttl = Inr h'"
  shows "is_seen h' k = is_seen h k"
proof -
  from mark_seen_papers[OF assms(2)] obtain ps where
    ps: "papers_of (data h) = Some ps"
        "papers_of (data h') = Some (AList.update i (seen_entry ttl seen_at) ps)" by blast
  from assms(1) ps(1) have "i \<in> fst ` set ps" by (simp add: is_seen_papers)
  then show ?thesis using ps by (auto simp: is_seen_papers dom_update)
qed

lemma mark_seen_repeat_membership:
  "is_seen h i = Inr True \<Longrightarrow> mark_seen_repeat calls h i = Inr h' \<Longrightarrow>
   is_seen h' k = is_seen h k"
proof (induction calls arbitrary: h)
  case Nil
  then show ?case by simp
next
  case (Cons c calls)
  obtain io seen_at now_iso ttl where c: "c = (io, seen_at, now_iso, ttl)"
    by (cases c) auto
  from Cons.prems(2) c obtain h1 where
    m: "mark_seen io seen_at now_iso h i ttl = Inr h1"
    and r: "mark_seen_repeat calls h1 i = Inr h'"
    by (auto split: sum.splits)
  have s1: "is_seen h1 i = Inr True" using m by (rule mark_seen_is_seen)
  have "is_seen h' k = is_seen h1 k" using s1 r by (rule Cons.IH)
  also have "\<dots> = is_seen h k" using Cons.prems(1) m by (rule mark_seen_again_membership)
  finally show ?case .
qed

lemma filter_unseen_papers:
  "papers_of (data h) = Some ps \<Longrightarrow>
   filter_unseen h xs = Inr (filter (\<lambda>p. arxiv_id p \<notin> fst ` set ps) xs)"
  by (induction xs) (simp_all add: is_seen_papers)

lemma mark_seen_repeat_papers:
  "mark_seen_repeat calls h i = Inr h' \<Longrightarrow> papers_of (data h) \<noteq> None \<Longrightarrow>
   papers_of (data h') \<noteq> None"
proof (induction calls arbitrary: h)
  case Nil
  then show ?case by simp
next
  case (Cons c calls)
  obtain io seen_at now_iso ttl where c: "c = (io, seen_at, now_iso, ttl)"
    by (cases c) auto
  from Cons.prems(1) c obtain h1 where
    m: "mark_seen io seen_at now_iso h i ttl = Inr h1"
    and r: "mark_seen_repeat calls h1 i = Inr h'"
    by (auto split: sum.splits)
  from mark_seen_papers[OF m] have "papers_of (data h1) \<noteq> None" by auto
  with r show ?case by (rule Cons.IH)
qed

lemma filter_unseen_excludes:
  assumes "is_seen h i = Inr True" and "papers_of (data h) \<noteq> None"
  shows "\<exists>out. filter_unseen h xs = Inr out \<and> (\<forall>p \<in> set out. arxiv_id p \<noteq> i)"
proof -
  from assms(2) obtain ps where ps: "papers_of (data h) = Some ps" by auto
  with assms(1) have "i \<in> fst ` set ps" by (simp add: is_seen_papers)
  then show ?thesis unfolding filter_unseen_papers[OF ps] by auto
qed

text \<open>
  Claim C1.  After a call \<open>mark_seen(i, title)\<close> has returned, \<open>is_seen(i)\<close> is true
  and the entry of \<open>i\<close> holds the title and the time of the call.  After any further
  calls \<open>mark_seen(i, ...)\<close>, \<open>is_seen(i)\<close> is still true, \<open>is_seen\<close> answers every id
  as it did before them, and \<open>filter_unseen\<close> of any list returns a list without a
  paper of id \<open>i\<close>; one further call replaces the entry of \<open>i\<close> and leaves every
  other entry as it was.  The call returns whenever the ledger has a \<open>papers\<close>
  object and the file can be written.
\<close>

theorem mark_seen_idempotent:
  "(\<forall>h1. mark_seen io seen_at now_iso h i ttl = Inr h1 \<longrightarrow>
       is_seen h1 i = Inr True \<and>
       entry_of h1 i = Some (seen_entry ttl seen_at) \<and>
       (\<forall>calls h2. mark_seen_repeat calls h1 i = Inr h2 \<longrightarrow>
          is_seen h2 i = Inr True \<and>
          (\<forall>k. is_seen h2 k = is_seen h1 k) \<and>
          (\<forall>xs. \<exists>out. filter_unseen h2 xs = Inr out \<and> (\<forall>p \<in> set out. arxiv_id p \<noteq> i))) \<and>
       (\<forall>io' seen_at' now_iso' ttl' h2.
          mark_seen io' seen_at' now_iso' h1 i ttl' = Inr h2 \<longrightarrow>
          entry_of h2 i = Some (seen_entry ttl' seen_at') \<and>
          (\<forall>k. k \<noteq> i \<longrightarrow> entry_of h2 k = entry_of h1 k))) \<and>
   (io = Writable \<and> papers_of (data h) \<noteq> None \<longrightarrow>
      (\<exists>h1. mark_seen io seen_at now_iso h i ttl = Inr h1))"
proof (intro conjI allI impI)
  fix h1
  assume m: "mark_seen io seen_at now_iso h i ttl = Inr h1"
  show s1: "is_seen h1 i = Inr True" using m by (rule mark_seen_is_seen)
  show "entry_of h1 i = Some (seen_entry ttl seen_at)" using m by (rule mark_seen_entry(1))
  have p1: "papers_of (data h1) \<noteq> None" using mark_seen_papers[OF m] by auto
  {
    fix calls h2
    assume r: "mark_seen_repeat calls h1 i = Inr h2"
    have mem: "\<And>k. is_seen h2 k = is_seen h1 k"
      using s1 r by (rule mark_seen_repeat_membership)
    show s2: "is_seen h2 i = Inr True" using mem s1 by simp
    show "is_seen h2 k = is_seen h1 k" for k by (rule mem)
    have p2: "papers_of (data h2) \<noteq> None" using r p1 by (rule mark_seen_repeat_papers)
    show "\<exists>out. filter_unseen h2 xs = Inr out \<and> (\<forall>p \<in> set out. arxiv_id p \<noteq> i)" for xs
      using s2 p2 by (rule filter_unseen_excludes)
  }
  {
    fix io' seen_at' now_iso' ttl' h2
    assume m2: "mark_seen io' seen_at' now_iso' h1 i ttl' = Inr h2"
    show "entry_of h2 i = Some (seen_entry ttl' seen_at')" using m2 by (rule mark_seen_entry(1))
    show "entry_of h2 k = entry_of h1 k" if "k \<noteq> i" for k
      using m2 that by (rule mark_seen_entry(2))
  }
next
  assume "io = Writable \<and> papers_of (data h) \<noteq> None"
  then show "\<exists>h1. mark_seen io seen_at now_iso h i ttl = Inr h1"
    using mark_seen_returns by auto
qed

theorem mark_seen_idempotent_witness:
  "\<exists>h1 h2.
     mark_seen Writable ''2024-01-20T09:00:00'' ''2024-01-20T09:00:01'' fresh_manager
       ''2401.12345'' ''First title'' = Inr h1 \<and>
     mark_seen_repeat [(Writable, ''2024-01-21T09:00:00'', ''2024-01-21T09:00:01'', ''Second title'')]
       h1 ''2401.12345'' = Inr h2 \<and>
     is_seen h1 ''2401.12345'' = Inr True \<and>
     is_seen h2 ''2401.12345'' = Inr True \<and>
     is_seen h2 ''2401.99999'' = is_seen h1 ''2401.99999'' \<and>
     entry_of h2 ''2401.12345'' = Some (seen_entry ''Second title'' ''2024-01-21T09:00:00'') \<and>
     (\<exists>out. filter_unseen h2 [paper_of ''2401.12345'' [], paper_of ''2401.99999'' []] = Inr out \<and>
            (\<forall>p \<in> set out. arxiv_id p \<noteq> ''2401.12345''))"
proof -
  let ?h1 = "manager_with [(''2401.12345'', seen_entry ''First title'' ''2024-01-20T09:00:00'')]
               ''2024-01-20T09:00:01'' 1"
  let ?h2 = "manager_with [(''2401.12345'', seen_entry ''Second title'' ''2024-01-21T09:00:00'')]
               ''2024-01-21T09:00:01'' 2"
  have w: "Writable = Writable \<and> papers_of (data fresh_manager) \<noteq> None" by code_simp
  have m1: "mark_seen Writable ''2024-01-20T09:00:00'' ''2024-01-20T09:00:01'' fresh_manager
       ''2401.12345'' ''First title'' = Inr ?h1" by code_simp
  have m2: "mark_seen Writable ''2024-01-21T09:00:00'' ''2024-01-21T09:00:01'' ?h1
       ''2401.12345'' ''Second title'' = Inr ?h2" by code_simp
  then have r: "mark_seen_repeat [(Writable, ''2024-01-21T09:00:00'', ''2024-01-21T09:00:01'', ''Second title'')]
       ?h1 ''2401.12345'' = Inr ?h2" by simp
  note T = mark_seen_idempotent [of Writable "''2024-01-20T09:00:00''" "''2024-01-20T09:00:01''"
      fresh_manager "''2401.12345''" "''First title''"]
  from T w have "\<exists>h1. mark_seen Writable ''2024-01-20T09:00:00'' ''2024-01-20T09:00:01'' fresh_manager
       ''2401.12345'' ''First title'' = Inr h1" by blast
  from T m1 have a: "is_seen ?h1 ''2401.12345'' = Inr True" by blast
  from T m1 r have b: "is_seen ?h2 ''2401.12345'' = Inr True"
    and c: "\<forall>k. is_seen ?h2 k = is_seen ?h1 k"
    and d: "\<forall>xs. \<exists>out. filter_unseen ?h2 xs = Inr out \<and> (\<forall>p \<in> set out. arxiv_id p \<noteq> ''2401.12345'')"
    by blast+
  from T m1 m2 have e: "entry_of ?h2 ''2401.12345'' = Some (seen_entry ''Second title'' ''2024-01-21T09:00:00'')"
    by blast
  from m1 r a b c d e show ?thesis by blast
qed

section \<open>Order of the candidates\<close>

lemma filter_unseen_subseq: "filter_unseen h xs = Inr out \<Longrightarrow> subseq out xs"
proof (induction xs arbitrary: out)
  case Nil
  then show ?case by simp
next
  case (Cons p ps)
  from Cons.prems obtain seen rest where
    r: "filter_unseen h ps = Inr rest" and o: "out = (if seen then rest else p # rest)"
    by (auto split: sum.splits)
  from Cons.IH[OF r] o show ?case by auto
qed

lemma filter_by_date_subseq: "filter_by_date f now days xs = Inr out \<Longrightarrow> subseq out xs"
proof (cases "0 < days")
  case True
  assume "filter_by_date f now days xs = Inr out"
  from filter_by_date_result[OF True this] show ?thesis by simp
next
  case False
  assume "filter_by_date f now days xs = Inr out"
  with False show ?thesis by (simp add: filter_by_date_def)
qed

lemma filter_unseen_returns:
  "papers_of (data h) \<noteq> None \<Longrightarrow> \<exists>out. filter_unseen h xs = Inr out"
  using filter_unseen_papers by auto

text \<open>
  Claim C6.  A list returned by \<open>filter_by_date\<close> is a subsequence of its input, and
  so is a list returned by \<open>filter_unseen\<close>: papers are deleted, none is moved or
  added.  Hence the candidates that the pipeline gets from \<open>fetch_recent\<close> and then
  \<open>filter_unseen\<close> are a subsequence of the fetched papers.  \<open>filter_by_date\<close>
  returns a list when \<open>days \<le> 0\<close>, or when \<open>now - days\<close> is a timestamp and no
  \<open>published\<close> parses to a timestamp without timezone; \<open>filter_unseen\<close> returns one
  when the ledger has a \<open>papers\<close> object.
\<close>

theorem filters_preserve_order:
  "(\<forall>out. filter_by_date f now days xs = Inr out \<longrightarrow> subseq out xs) \<and>
   (\<forall>out. filter_unseen h xs = Inr out \<longrightarrow> subseq out xs) \<and>
   (\<forall>recent unseen. fetch_recent f now_q now days response = Inr recent \<and>
        filter_unseen h recent = Inr unseen \<longrightarrow> subseq unseen (fetch response)) \<and>
   (days \<le> 0 \<or> (\<exists>c. minus_days now days = Inr c) \<and>
        (\<forall>p \<in> set xs. \<forall>t. parse_published f p \<noteq> Some (Naive t))
      \<longrightarrow> (\<exists>out. filter_by_date f now days xs = Inr out)) \<and>
   (papers_of (data h) \<noteq> None \<longrightarrow> (\<exists>out. filter_unseen h xs = Inr out))"
proof (intro conjI allI impI)
  fix out assume "filter_by_date f now days xs = Inr out"
  then show "subseq out xs" by (rule filter_by_date_subseq)
next
  fix out assume "filter_unseen h xs = Inr out"
  then show "subseq out xs" by (rule filter_unseen_subseq)
next
  fix recent unseen
  assume a: "fetch_recent f now_q now days response = Inr recent \<and>
    filter_unseen h recent = Inr unseen"
  then have "filter_by_date f now days (fetch response) = Inr recent"
    by (auto simp: fetch_recent_def split: sum.splits)
  then have 1: "subseq recent (fetch response)" by (rule filter_by_date_subseq)
  from a have "filter_unseen h recent = Inr unseen" by simp
  then have 2: "subseq unseen recent" by (rule filter_unseen_subseq)
  from 2 1 show "subseq unseen (fetch response)" by (rule subseq_order.trans)
next
  assume a: "days \<le> 0 \<or> (\<exists>c. minus_days now days = Inr c) \<and>
        (\<forall>p \<in> set xs. \<forall>t. parse_published f p \<noteq> Some (Naive t))"
  show "\<exists>out. filter_by_date f now days xs = Inr out"
  proof (cases "days \<le> 0")
    case True
    then show ?thesis by (simp add: filter_by_date_def)
  next
    case False
    with a show ?thesis using filter_by_date_returns by blast
  qed
next
  assume "papers_of (data h) \<noteq> None"
  then show "\<exists>out. filter_unseen h xs = Inr out" by (rule filter_unseen_returns)
qed

theorem filters_preserve_order_witness:
  "(\<exists>out. filter_by_date fromisoformat_basic sample_now 7
             [paper_of ''a'' ''2024-01-15T12:34:56Z'', paper_of ''b'' ''no date'',
              paper_of ''c'' ''2024-01-01T12:34:56Z''] = Inr out \<and>
          subseq out [paper_of ''a'' ''2024-01-15T12:34:56Z'', paper_of ''b'' ''no date'',
              paper_of ''c'' ''2024-01-01T12:34:56Z'']) \<and>
   (\<exists>out. filter_unseen (manager_with [(''b'', seen_entry ''B'' ''2024-01-10T00:00:00'')] [] 1)
             [paper_of ''a'' ''2024-01-15T12:34:56Z'', paper_of ''b'' ''no date'',
              paper_of ''c'' ''2024-01-01T12:34:56Z''] = Inr out \<and>
          subseq out [paper_of ''a'' ''2024-01-15T12:34:56Z'', paper_of ''b'' ''no date'',
              paper_of ''c'' ''2024-01-01T12:34:56Z'']) \<and>
   (\<exists>recent unseen.
      fetch_recent fromisoformat_basic sample_now sample_now 7
        (Some [entry_pub ''http://arxiv.org/abs/2401.00001v1'' ''2024-01-15T12:34:56Z'',
               entry_pub ''http://arxiv.org/abs/2401.00002v1'' ''2024-01-01T12:34:56Z'']) = Inr recent \<and>
      filter_unseen (manager_with [(''b'', seen_entry ''B'' ''2024-01-10T00:00:00'')] [] 1) recent
        = Inr unseen \<and>
      subseq unseen
        (fetch (Some [entry_pub ''http://arxiv.org/abs/2401.00001v1'' ''2024-01-15T12:34:56Z'',
                      entry_pub ''http://arxiv.org/abs/2401.00002v1'' ''2024-01-01T12:34:56Z''])))"
proof -
  let ?xs = "[paper_of ''a'' ''2024-01-15T12:34:56Z'', paper_of ''b'' ''no date'',
              paper_of ''c'' ''2024-01-01T12:34:56Z'']"
  let ?h = "manager_with [(''b'', seen_entry ''B'' ''2024-01-10T00:00:00'')] [] 1"
  let ?r = "Some [entry_pub ''http://arxiv.org/abs/2401.00001v1'' ''2024-01-15T12:34:56Z'',
                  entry_pub ''http://arxiv.org/abs/2401.00002v1'' ''2024-01-01T12:34:56Z'']"
  have "minus_days sample_now 7 = Inr 63840700800000000" by code_simp
  then have m: "\<exists>c. minus_days sample_now 7 = Inr c" by blast
  have pa: "parse_published fromisoformat_basic (paper_of ''a'' ''2024-01-15T12:34:56Z'')
              = Some (Aware 63840918896000000)" by code_simp
  have pb: "parse_published fromisoformat_basic (paper_of ''b'' ''no date'') = None"
    by code_simp
  have pc: "parse_published fromisoformat_basic (paper_of ''c'' ''2024-01-01T12:34:56Z'')
              = Some (Aware 63839709296000000)" by code_simp
  have nn: "\<forall>p \<in> set ?xs. \<forall>t. parse_published fromisoformat_basic p \<noteq> Some (Naive t)"
    using pa pb pc by simp
  have ph: "papers_of (data ?h) \<noteq> None" by code_simp
  have fr: "fetch_recent fromisoformat_basic sample_now sample_now 7 ?r = Inr (take 1 (fetch ?r))"
    by code_simp
  have fu: "filter_unseen ?h (take 1 (fetch ?r)) = Inr (take 1 (fetch ?r))"
    by code_simp
  note T = filters_preserve_order [of fromisoformat_basic sample_now 7 ?xs ?h sample_now ?r]
  from T m nn obtain out1 where
    o1: "filter_by_date fromisoformat_basic sample_now 7 ?xs = Inr out1" by blast
  with T have s1: "subseq out1 ?xs" by blast
  from T ph obtain out2 where o2: "filter_unseen ?h ?xs = Inr out2" by blast
  with T have s2: "subseq out2 ?xs" by blast
  from T fr fu have s3: "subseq (take 1 (fetch ?r)) (fetch ?r)" by blast
  from o1 s1 o2 s2 fr fu s3 show ?thesis by blast
qed

section \<open>Loading the ledger\<close>

lemma init_recovers:
  "f = Missing \<or> f = Unreadable \<or> f = NotJson \<Longrightarrow>
   init f r = Inr \<lparr> data = empty_ledger, retention_days = r, history_file = f, saves = 0 \<rparr>"
  by (auto simp: init_def load_def read_json_def)

lemma empty_ledger_operations:
  assumes "data h = empty_ledger"
  shows "is_seen h i = Inr False" and "filter_unseen h xs = Inr xs"
proof -
  have p: "papers_of (data h) = Some []"
    using assms by (simp add: empty_ledger_def papers_of_JObj)
  show "is_seen h i = Inr False" using is_seen_papers[OF p] by simp
  show "filter_unseen h xs = Inr xs" using filter_unseen_papers[OF p] by simp
qed

text \<open>
  Claim C8 says that a history file with malformed content never makes loading
  fatal, and that the manager then works as on the empty ledger.  It does not hold:
  a file whose bytes are not UTF-8 makes \<open>json.load\<close> raise \<open>UnicodeDecodeError\<close>,
  which the handler of \<open>_load\<close> does not catch, so the constructor raises; and a file
  that holds JSON which is not a ledger (here the array \<open>[]\<close>) is loaded as it is,
  so \<open>is_seen\<close> raises.
\<close>

theorem init_malformed_file_raises:
  "init Undecodable 90 = Inl UnicodeDecodeError \<and>
   init (Holds (JArr [])) 90
     = Inr \<lparr> data = JArr [], retention_days = 90, history_file = Holds (JArr []), saves = 0 \<rparr> \<and>
   is_seen \<lparr> data = JArr [], retention_days = 90, history_file = Holds (JArr []), saves = 0 \<rparr>
     ''2401.12345'' = Inl TypeError"
  by code_simp

section \<open>Retention\<close>

lemma try_expired_cases:
  "try_expired f (Naive c) info = Inr b \<Longrightarrow> b = older f c info"
  "try_expired f (Naive c) info = Inl e \<Longrightarrow> caught [KeyError, ValueError] e \<Longrightarrow> \<not> older f c info"
  by (auto simp: try_expired_def older_def seen_at_time_def dt_lt_def py_getitem_def
           split: sum.splits json.splits option.splits datetime.splits)

lemma try_expired_readable:
  "entry_readable f info \<Longrightarrow>
   (\<exists>b. try_expired f (Naive c) info = Inr b) \<or> try_expired f (Naive c) info = Inl KeyError
     \<or> try_expired f (Naive c) info = Inl ValueError"
  by (auto simp: try_expired_def entry_readable_def dt_lt_def py_getitem_def
           split: sum.splits json.splits option.splits datetime.splits)

lemma collect_old_result:
  "collect_old f (Naive c) acc items = Inr out \<Longrightarrow>
   out = acc @ map fst (filter (\<lambda>(i, info). older f c info) items)"
proof (induction items arbitrary: acc)
  case Nil
  then show ?case by simp
next
  case (Cons x items)
  obtain i info where x: "x = (i, info)" by (cases x) auto
  show ?case
  proof (cases "try_expired f (Naive c) info")
    case (Inl e)
    with Cons.prems x have ve: "caught [KeyError, ValueError] e"
      and r: "collect_old f (Naive c) acc items = Inr out"
      by (auto split: if_splits)
    from try_expired_cases(2)[OF Inl ve] Cons.IH[OF r] x show ?thesis by simp
  next
    case (Inr b)
    with Cons.prems x have
      r: "collect_old f (Naive c) (if b then acc @ [i] else acc) items = Inr out"
      by simp
    from try_expired_cases(1)[OF Inr] Cons.IH[OF r] x show ?thesis by simp
  qed
qed

lemma collect_old_returns:
  "\<forall>(i, info) \<in> set items. entry_readable f info \<Longrightarrow>
   \<exists>out. collect_old f (Naive c) acc items = Inr out"
proof (induction items arbitrary: acc)
  case Nil
  then show ?case by simp
next
  case (Cons x items)
  obtain i info where x: "x = (i, info)" by (cases x) auto
  with Cons.prems have "entry_readable f info" by simp
  from try_expired_readable[OF this, of c] Cons.IH Cons.prems x show ?case by auto
qed

lemma delete_all_result:
  "delete_all items ks = Inr items' \<Longrightarrow> items' = filter (\<lambda>(k, v). k \<notin> set ks) items"
proof (induction ks arbitrary: items)
  case Nil
  then show ?case by simp
next
  case (Cons k ks)
  from Cons.prems have r: "delete_all (AList.delete k items) ks = Inr items'"
    by (auto simp: py_delitem_def split: if_splits)
  have "filter (\<lambda>(k', v). k' \<notin> set ks) (AList.delete k items)
          = filter (\<lambda>(k', v). k' \<notin> set (k # ks)) items"
    by (induction items) (auto simp: AList.delete_eq)
  with Cons.IH[OF r] show ?case by simp
qed

lemma delete_all_returns:
  "distinct ks \<Longrightarrow> set ks \<subseteq> fst ` set items \<Longrightarrow> \<exists>items'. delete_all items ks = Inr items'"
proof (induction ks arbitrary: items)
  case Nil
  then show ?case by simp
next
  case (Cons k ks)
  have "fst ` set (AList.delete k items) = fst ` set items - {k}"
    by (force simp: AList.delete_eq)
  then have "set ks \<subseteq> fst ` set (AList.delete k items)"
    using Cons.prems by auto
  moreover have "distinct ks" using Cons.prems by simp
  ultimately have "\<exists>items'. delete_all (AList.delete k items) ks = Inr items'"
    using Cons.IH by blast
  moreover have "k \<in> fst ` set items" using Cons.prems by simp
  ultimately show ?case by (simp add: py_delitem_def)
qed

lemma filter_keys_of_filter:
  assumes "distinct (map fst items)"
  shows "filter (\<lambda>(k, v). k \<notin> set (map fst (filter P items))) items = filter (\<lambda>x. \<not> P x) items"
proof (rule filter_cong[OF refl])
  fix x assume x: "x \<in> set items"
  obtain k v where kv: "x = (k, v)" by (cases x) auto
  have "k \<in> set (map fst (filter P items)) \<longleftrightarrow> P (k, v)"
  proof
    assume "k \<in> set (map fst (filter P items))"
    then obtain v' where v': "(k, v') \<in> set items" "P (k, v')" by auto
    from assms v'(1) x kv have "v' = v" by (auto dest: eq_key_imp_eq_value)
    with v' show "P (k, v)" by simp
  next
    assume "P (k, v)"
    with x kv show "k \<in> set (map fst (filter P items))" by force
  qed
  then show "(case x of (k, v) \<Rightarrow> k \<notin> set (map fst (filter P items))) = (\<not> P x)"
    using kv by simp
qed

lemma with_papers_same:
  "papers_of d = Some ps \<Longrightarrow> with_papers d (JObj ps) = d"
  by (auto dest!: papers_of_SomeD simp: with_papers_def update_triv)

lemma map_of_filter_distinct:
  assumes "distinct (map fst ps)" and "(i, info) \<in> set ps"
  shows "map_of (filter P ps) i = (if P (i, info) then Some info else None)"
proof (cases "P (i, info)")
  case True
  have "distinct (map fst (filter P ps))" using assms(1) by (rule distinct_map_filter)
  moreover have "(i, info) \<in> set (filter P ps)" using True assms(2) by simp
  ultimately show ?thesis using True by (simp add: map_of_is_SomeI)
next
  case False
  have "i \<notin> fst ` set (filter P ps)"
  proof
    assume "i \<in> fst ` set (filter P ps)"
    then obtain v where v: "(i, v) \<in> set ps" "P (i, v)" by auto
    from assms v(1) have "v = info" by (auto dest: eq_key_imp_eq_value)
    with v False show False by simp
  qed
  then show ?thesis using False by (simp add: map_of_eq_None_iff)
qed

lemma cleanup_disabled:
  "retention_days h \<le> 0 \<Longrightarrow> cleanup_old_entries f now io t h = Inr (0, h)"
  by (simp add: cleanup_old_entries_def)

lemma papers_of_getitem:
  "papers_of d = Some ps \<Longrightarrow> py_getitem d ''papers'' = Inr (JObj ps)"
  by (auto simp: papers_of_def split: sum.splits json.splits)

lemma cleanup_decompose:
  assumes "0 < retention_days h"
    and "cleanup_old_entries f now io t h = Inr (n, h')"
    and "papers_of (data h) = Some ps"
  shows "\<exists>to_remove items'.
           collect_old f (Naive (now - retention_days h * us_per_day)) [] ps = Inr to_remove \<and>
           delete_all ps to_remove = Inr items' \<and>
           n = length to_remove \<and>
           (if to_remove \<noteq> []
            then save io t (h\<lparr>data := with_papers (data h) (JObj items')\<rparr>) = Inr h'
            else h' = h\<lparr>data := with_papers (data h) (JObj items')\<rparr>)"
proof -
  from assms(1,2) obtain c where c: "minus_days now (retention_days h) = Inr c"
    by (auto simp: cleanup_old_entries_def split: sum.splits)
  have cv: "c = now - retention_days h * us_per_day" using c by (rule minus_days_value)
  have g: "py_getitem (data h) ''papers'' = Inr (JObj ps)"
    using assms(3) by (rule papers_of_getitem)
  from assms(1,2) c g show ?thesis
    unfolding cleanup_old_entries_def cv
    by (auto simp: py_items_def Let_def split: sum.splits if_splits)
qed

lemma cleanup_result:
  assumes "0 < retention_days h"
    and "cleanup_old_entries f now io t h = Inr (n, h')"
    and "papers_of (data h) = Some ps"
    and "distinct (map fst ps)"
  shows "papers_of (data h')
           = Some (filter (\<lambda>(i, info). \<not> older f (now - retention_days h * us_per_day) info) ps)"
    and "n = length (filter (\<lambda>(i, info). older f (now - retention_days h * us_per_day) info) ps)"
    and "0 < n \<Longrightarrow> saves h' = saves h + 1 \<and> history_file h' = Holds (data h')"
    and "n = 0 \<Longrightarrow> h' = h"
proof -
  let ?c = "now - retention_days h * us_per_day"
  let ?P = "\<lambda>(i, info). older f ?c info"
  from cleanup_decompose[OF assms(1-3)] obtain to_remove items' where
    co: "collect_old f (Naive ?c) [] ps = Inr to_remove"
    and de: "delete_all ps to_remove = Inr items'"
    and n: "n = length to_remove"
    and sv: "if to_remove \<noteq> []
            then save io t (h\<lparr>data := with_papers (data h) (JObj items')\<rparr>) = Inr h'
            else h' = h\<lparr>data := with_papers (data h) (JObj items')\<rparr>"
    by blast
  have tr: "to_remove = map fst (filter ?P ps)"
    using collect_old_result[OF co] by simp
  have "items' = filter (\<lambda>(k, v). k \<notin> set (map fst (filter ?P ps))) ps"
    using delete_all_result[OF de] tr by simp
  also have "\<dots> = filter (\<lambda>x. \<not> ?P x) ps"
    using assms(4) by (rule filter_keys_of_filter)
  also have "\<dots> = filter (\<lambda>(i, info). \<not> older f ?c info) ps"
    by (rule filter_cong) auto
  finally have it: "items' = filter (\<lambda>(i, info). \<not> older f ?c info) ps" .
  have pw: "papers_of (data (h\<lparr>data := with_papers (data h) (JObj items')\<rparr>)) = Some items'"
    using papers_of_with_papers[OF assms(3)] by simp
  show "papers_of (data h') = Some (filter (\<lambda>(i, info). \<not> older f ?c info) ps)"
  proof (cases "to_remove = []")
    case True
    with sv pw it show ?thesis by simp
  next
    case False
    with sv have "save io t (h\<lparr>data := with_papers (data h) (JObj items')\<rparr>) = Inr h'" by simp
    from save_papers[OF this] pw it show ?thesis by simp
  qed
  show "n = length (filter ?P ps)" using n tr by simp
  show "saves h' = saves h + 1 \<and> history_file h' = Holds (data h')" if "0 < n"
  proof -
    from that n have "to_remove \<noteq> []" by auto
    with sv have "save io t (h\<lparr>data := with_papers (data h) (JObj items')\<rparr>) = Inr h'" by simp
    from save_effect[OF this] show ?thesis by simp
  qed
  show "h' = h" if "n = 0"
  proof -
    from that n have e: "to_remove = []" by simp
    with de have "items' = ps" by simp
    with sv e have "h' = h\<lparr>data := with_papers (data h) (JObj ps)\<rparr>" by simp
    then show ?thesis using with_papers_same[OF assms(3)] by simp
  qed
qed

lemma cleanup_returns:
  assumes "0 < retention_days h"
    and "minus_days now (retention_days h) = Inr c"
    and "papers_of (data h) = Some ps"
    and "distinct (map fst ps)"
    and "\<forall>(i, info) \<in> set ps. entry_readable f info"
    and "io = Writable"
  shows "\<exists>n h'. cleanup_old_entries f now io t h = Inr (n, h')"
proof -
  have g: "py_getitem (data h) ''papers'' = Inr (JObj ps)"
    using assms(3) by (rule papers_of_getitem)
  from collect_old_returns[OF assms(5), of c "[]"] obtain to_remove where
    co: "collect_old f (Naive c) [] ps = Inr to_remove" by blast
  have tr: "to_remove = map fst (filter (\<lambda>(i, info). older f c info) ps)"
    using collect_old_result[OF co] by simp
  have "distinct to_remove" unfolding tr using assms(4) by (rule distinct_map_filter)
  moreover have "set to_remove \<subseteq> fst ` set ps" unfolding tr by auto
  ultimately obtain items' where de: "delete_all ps to_remove = Inr items'"
    using delete_all_returns by blast
  from papers_of_SomeD[OF assms(3)] obtain kvs where k: "data h = JObj kvs" by blast
  have "\<exists>h'. save io t (h\<lparr>data := with_papers (data h) (JObj items')\<rparr>) = Inr h'"
    using assms(6) k by (intro save_returns) (simp_all add: with_papers_def)
  then show ?thesis
    using assms(1,2) g co de
    by (auto simp: cleanup_old_entries_def py_items_def Let_def)
qed

text \<open>
  What a call of \<open>cleanup_old_entries\<close> that returns has done.  With
  \<open>retention_days \<le> 0\<close> it returns 0 and changes nothing.  With
  \<open>retention_days > 0\<close>, on a ledger with entries \<open>ps\<close>, it leaves exactly the
  entries that are not older than \<open>now - retention_days\<close> and returns the number of
  entries removed; when that number is positive the ledger has been saved once, and
  when it is 0 the manager is as before.  The call returns when
  \<open>now - retention_days\<close> is a timestamp, every entry is a \<open>dict\<close> whose \<open>seen_at\<close>,
  if any, is a string that does not parse to an aware timestamp, and the file can be
  written.
\<close>

lemma cleanup_old_entries_retention:
  "(retention_days h \<le> 0 \<longrightarrow> cleanup_old_entries f now io t h = Inr (0, h)) \<and>
   (0 < retention_days h \<and> papers_of (data h) = Some ps \<and> distinct (map fst ps) \<longrightarrow>
      (\<forall>n h'. cleanup_old_entries f now io t h = Inr (n, h') \<longrightarrow>
         papers_of (data h')
           = Some (filter (\<lambda>(i, info). \<not> older f (now - retention_days h * us_per_day) info) ps) \<and>
         n = length (filter (\<lambda>(i, info). older f (now - retention_days h * us_per_day) info) ps) \<and>
         (\<forall>i info. (i, info) \<in> set ps \<and>
             seen_at_time f info = Some (Naive (now - (retention_days h + 1) * us_per_day))
             \<longrightarrow> entry_of h' i = None) \<and>
         (\<forall>i info. (i, info) \<in> set ps \<and>
             seen_at_time f info = Some (Naive (now - retention_days h * us_per_day))
             \<longrightarrow> entry_of h' i = Some info) \<and>
         (\<forall>i info. (i, info) \<in> set ps \<and> seen_at_time f info = None
             \<longrightarrow> entry_of h' i = Some info) \<and>
         (0 < n \<longrightarrow> saves h' = saves h + 1 \<and> history_file h' = Holds (data h')) \<and>
         (n = 0 \<longrightarrow> h' = h)) \<and>
      ((\<exists>c. minus_days now (retention_days h) = Inr c) \<and>
       (\<forall>(i, info) \<in> set ps. entry_readable f info) \<and> io = Writable
         \<longrightarrow> (\<exists>n h'. cleanup_old_entries f now io t h = Inr (n, h'))))"
proof (intro conjI impI allI)
  assume "retention_days h \<le> 0"
  then show "cleanup_old_entries f now io t h = Inr (0, h)" by (rule cleanup_disabled)
next
  fix n h'
  assume a: "0 < retention_days h \<and> papers_of (data h) = Some ps \<and> distinct (map fst ps)"
    and c: "cleanup_old_entries f now io t h = Inr (n, h')"
  from a have r: "0 < retention_days h" and p: "papers_of (data h) = Some ps"
    and d: "distinct (map fst ps)" by simp_all
  note R = cleanup_result[OF r c p d]
  let ?c = "now - retention_days h * us_per_day"
  show "papers_of (data h') = Some (filter (\<lambda>(i, info). \<not> older f ?c info) ps)" by (rule R(1))
  show "n = length (filter (\<lambda>(i, info). older f ?c info) ps)" by (rule R(2))
  have e: "entry_of h' i = (if \<not> older f ?c info then Some info else None)"
    if "(i, info) \<in> set ps" for i info
    using map_of_filter_distinct[OF d that, of "\<lambda>(i, info). \<not> older f ?c info"]
    by (simp add: entry_of_def R(1))
  {
    fix i info
    assume x: "(i, info) \<in> set ps \<and>
        seen_at_time f info = Some (Naive (now - (retention_days h + 1) * us_per_day))"
    have "now - (retention_days h + 1) * us_per_day < ?c"
      by (simp add: us_per_day_def algebra_simps)
    with x have "older f ?c info" by (simp add: older_def)
    with e[of i info] x show "entry_of h' i = None" by simp
  }
  {
    fix i info
    assume x: "(i, info) \<in> set ps \<and> seen_at_time f info = Some (Naive ?c)"
    then have "\<not> older f ?c info" by (simp add: older_def)
    with e[of i info] x show "entry_of h' i = Some info" by simp
  }
  {
    fix i info
    assume x: "(i, info) \<in> set ps \<and> seen_at_time f info = None"
    then have "\<not> older f ?c info" by (simp add: older_def)
    with e[of i info] x show "entry_of h' i = Some info" by simp
  }
  show "saves h' = saves h + 1" if "0 < n" using R(3)[OF that] by simp
  show "history_file h' = Holds (data h')" if "0 < n" using R(3)[OF that] by simp
  show "h' = h" if "n = 0" using that by (rule R(4))
next
  assume a: "0 < retention_days h \<and> papers_of (data h) = Some ps \<and> distinct (map fst ps)"
    and b: "(\<exists>c. minus_days now (retention_days h) = Inr c) \<and>
       (\<forall>(i, info) \<in> set ps. entry_readable f info) \<and> io = Writable"
  then show "\<exists>n h'. cleanup_old_entries f now io t h = Inr (n, h')"
    using cleanup_returns[of h now _ ps f io t] by blast
qed

lemma cleanup_old_entries_retention_example:
  "(\<exists>n h'. cleanup_old_entries fromisoformat_basic sample_now Writable ''2024-01-20T00:00:00''
             (manager_with sample_entries ''2024-01-01T00:00:00'' 3) = Inr (n, h') \<and>
      n = 1 \<and>
      entry_of h' ''old'' = None \<and>
      entry_of h' ''edge'' = Some (seen_entry ''E'' ''2023-10-22T00:00:00'') \<and>
      entry_of h' ''nodate'' = Some (JObj [(''title'', JStr ''N'')]) \<and>
      entry_of h' ''bad'' = Some (seen_entry ''B'' ''not a date'') \<and>
      saves h' = 4 \<and> history_file h' = Holds (data h')) \<and>
   cleanup_old_entries fromisoformat_basic sample_now Writable ''2024-01-20T00:00:00''
     ((manager_with sample_entries ''2024-01-01T00:00:00'' 3)\<lparr>retention_days := 0\<rparr>)
     = Inr (0, (manager_with sample_entries ''2024-01-01T00:00:00'' 3)\<lparr>retention_days := 0\<rparr>)"
proof -
  let ?h = "manager_with sample_entries ''2024-01-01T00:00:00'' 3"
  let ?f = fromisoformat_basic
  let ?t = "''2024-01-20T00:00:00''"
  have r: "retention_days ?h = 90" by (simp add: manager_with_def)
  have sv: "saves ?h = 3" by (simp add: manager_with_def)
  have p: "papers_of (data ?h) = Some sample_entries"
    by (simp add: manager_with_def ledger_with_def papers_of_JObj)
  have d: "distinct (map fst sample_entries)" by (simp add: sample_entries_def)
  have "minus_days sample_now 90 = Inr 63833529600000000" by code_simp
  then have m: "\<exists>c. minus_days sample_now (retention_days ?h) = Inr c" using r by simp
  have er: "\<forall>(i, info) \<in> set sample_entries. entry_readable ?f info" by code_simp
  have mem: "(''old'', seen_entry ''O'' ''2023-10-21T00:00:00'') \<in> set sample_entries"
    "(''edge'', seen_entry ''E'' ''2023-10-22T00:00:00'') \<in> set sample_entries"
    "(''nodate'', JObj [(''title'', JStr ''N'')]) \<in> set sample_entries"
    "(''bad'', seen_entry ''B'' ''not a date'') \<in> set sample_entries"
    by (simp_all add: sample_entries_def)
  have t1: "seen_at_time ?f (seen_entry ''O'' ''2023-10-21T00:00:00'')
              = Some (Naive (sample_now - (90 + 1) * us_per_day))" by code_simp
  have t2: "seen_at_time ?f (seen_entry ''E'' ''2023-10-22T00:00:00'')
              = Some (Naive (sample_now - 90 * us_per_day))" by code_simp
  have t3: "seen_at_time ?f (JObj [(''title'', JStr ''N'')]) = None" by code_simp
  have t4: "seen_at_time ?f (seen_entry ''B'' ''not a date'') = None" by code_simp
  have cnt: "length (filter (\<lambda>(i, info). older ?f (sample_now - 90 * us_per_day) info) sample_entries) = 1"
    by code_simp
  note T = cleanup_old_entries_retention [of ?h ?f sample_now Writable ?t sample_entries]
  from T r p d m er obtain n h' where
    c: "cleanup_old_entries ?f sample_now Writable ?t ?h = Inr (n, h')" by auto
  from T r p d c have
    n: "n = length (filter (\<lambda>(i, info). older ?f (sample_now - 90 * us_per_day) info) sample_entries)"
    and e1: "\<forall>i info. (i, info) \<in> set sample_entries \<and>
             seen_at_time ?f info = Some (Naive (sample_now - (90 + 1) * us_per_day))
             \<longrightarrow> entry_of h' i = None"
    and e2: "\<forall>i info. (i, info) \<in> set sample_entries \<and>
             seen_at_time ?f info = Some (Naive (sample_now - 90 * us_per_day))
             \<longrightarrow> entry_of h' i = Some info"
    and e3: "\<forall>i info. (i, info) \<in> set sample_entries \<and> seen_at_time ?f info = None
             \<longrightarrow> entry_of h' i = Some info"
    and s: "0 < n \<longrightarrow> saves h' = saves ?h + 1 \<and> history_file h' = Holds (data h')"
    by auto
  from n cnt have n1: "n = 1" by simp
  from e1 mem(1) t1 have a1: "entry_of h' ''old'' = None" by blast
  from e2 mem(2) t2 have a2: "entry_of h' ''edge'' = Some (seen_entry ''E'' ''2023-10-22T00:00:00'')"
    by blast
  from e3 mem(3) t3 have a3: "entry_of h' ''nodate'' = Some (JObj [(''title'', JStr ''N'')])"
    by blast
  from e3 mem(4) t4 have a4: "entry_of h' ''bad'' = Some (seen_entry ''B'' ''not a date'')"
    by blast
  from s n1 sv have a5: "saves h' = 4 \<and> history_file h' = Holds (data h')" by simp
  have z: "retention_days (?h\<lparr>retention_days := 0\<rparr>) \<le> 0" by simp
  from cleanup_old_entries_retention [of "?h\<lparr>retention_days := 0\<rparr>" ?f sample_now Writable ?t sample_entries] z
  have b: "cleanup_old_entries ?f sample_now Writable ?t (?h\<lparr>retention_days := 0\<rparr>)
             = Inr (0, ?h\<lparr>retention_days := 0\<rparr>)" by blast
  from c n1 a1 a2 a3 a4 a5 b show ?thesis by blast
qed

section \<open>Entries that stop the cleanup\<close>

lemma try_expired_errors:
  "try_expired f (Naive c) info = Inl e \<Longrightarrow> e = KeyError \<or> e = ValueError \<or> e = TypeError"
  by (auto simp: try_expired_def dt_lt_def py_getitem_def
           split: sum.splits json.splits option.splits datetime.splits)

lemma collect_old_raises:
  "(i, info) \<in> set items \<Longrightarrow> try_expired f (Naive c) info = Inl TypeError \<Longrightarrow>
   collect_old f (Naive c) acc items = Inl TypeError"
proof (induction items arbitrary: acc)
  case Nil
  then show ?case by simp
next
  case (Cons x items)
  obtain j inf where x: "x = (j, inf)" by (cases x) auto
  show ?case
  proof (cases "try_expired f (Naive c) inf")
    case (Inr b)
    with Cons.prems x have "(i, info) \<in> set items" by auto
    from Cons.IH[OF this Cons.prems(2)] Inr x show ?thesis by simp
  next
    case (Inl e)
    show ?thesis
    proof (cases "e = TypeError")
      case True
      with Inl x show ?thesis by simp
    next
      case False
      with try_expired_errors[OF Inl] have k: "e = KeyError \<or> e = ValueError" by simp
      with Inl Cons.prems x have "(i, info) \<in> set items" by auto
      from Cons.IH[OF this Cons.prems(2)] Inl k x show ?thesis by auto
    qed
  qed
qed

lemma try_expired_aware:
  "py_getitem info ''seen_at'' = Inr (JStr s) \<Longrightarrow> f s = Some (Aware u) \<Longrightarrow>
   try_expired f (Naive c) info = Inl TypeError"
  by (simp add: try_expired_def dt_lt_def)

lemma try_expired_not_str:
  "py_getitem info ''seen_at'' = Inr v \<Longrightarrow> \<forall>s. v \<noteq> JStr s \<Longrightarrow>
   try_expired f (Naive c) info = Inl TypeError"
  by (cases v) (simp_all add: try_expired_def)

lemma cleanup_raises:
  assumes "0 < retention_days h"
    and "minus_days now (retention_days h) = Inr c"
    and "papers_of (data h) = Some ps"
    and "(i, info) \<in> set ps"
    and "try_expired f (Naive c) info = Inl TypeError"
  shows "cleanup_old_entries f now io t h = Inl TypeError"
proof -
  have g: "py_getitem (data h) ''papers'' = Inr (JObj ps)"
    using assms(3) by (rule papers_of_getitem)
  have "collect_old f (Naive c) [] ps = Inl TypeError"
    using assms(4,5) by (rule collect_old_raises)
  then show ?thesis using assms(1,2) g
    by (simp add: cleanup_old_entries_def py_items_def)
qed

text \<open>
  Claim C3 says that, for every ledger state and \<open>retention_days > 0\<close>,
  \<open>cleanup_old_entries\<close> removes the entries whose \<open>seen_at\<close> parses and is older
  than \<open>now - retention_days\<close>, leaves an entry with an unparsable \<open>seen_at\<close>
  untouched, and returns the number removed.  It does not hold.  A \<open>seen_at\<close> that
  parses to an aware timestamp, here one 91 days old with retention 90, is compared
  with the naive cutoff, and a \<open>seen_at\<close> that is not a string, here \<open>null\<close>, is
  given to \<open>fromisoformat\<close>: both raise \<open>TypeError\<close>, which the handler does not
  catch.  The call then raises; no entry is removed, not even the entry 91 days old
  beside the \<open>null\<close> one, and no number is returned.
\<close>

theorem cleanup_old_entries_raises:
  "cleanup_old_entries fromisoformat_basic sample_now Writable ''2024-01-20T00:00:00''
     (manager_with aware_entries ''2024-01-01T00:00:00'' 1) = Inl TypeError \<and>
   cleanup_old_entries fromisoformat_basic sample_now Writable ''2024-01-20T00:00:00''
     (manager_with null_entries ''2024-01-01T00:00:00'' 1) = Inl TypeError \<and>
   seen_at_time fromisoformat_basic (seen_entry ''A'' ''2023-10-21T00:00:00+00:00'')
     = Some (Aware (sample_now - 91 * us_per_day)) \<and>
   seen_at_time fromisoformat_basic (seen_entry ''O'' ''2023-10-21T00:00:00'')
     = Some (Naive (sample_now - 91 * us_per_day))"
  by code_simp

section \<open>A failed summarization run\<close>

lemma run_failure_kinds:
  assumes "prompt_error r = None"
    and "process r = TimeoutExpired \<or> process r = CliNotFound \<or> process r = OtherFailure \<or>
         (\<exists>returncode. returncode \<noteq> 0 \<and> process r = Exited returncode)"
  shows "run r = Inr (False, [])"
  using assms by (auto simp: run_def)

lemma run_failed_no_ids: "run r = Inr (False, ids) \<Longrightarrow> ids = []"
  by (auto simp: run_def split: option.splits process_result.splits if_splits)

lemma summarize_failed:
  assumes "run (runner w) = Inr (False, ids)" and "candidates_error w = None"
  shows "summarize cfg w history unseen = Inr (1, history, [SummaryFailed])"
  using assms by (simp add: summarize_def)

text \<open>
  Claim C7.  A run of the summarizer that ends with a non-zero exit code, times out,
  does not find the CLI or fails in another way returns \<open>success = False\<close>.
  Whenever \<open>run\<close> returns \<open>success = False\<close>, the rest of \<open>main\<close> returns the exit
  code 1 with the history manager it was given, unchanged: no paper is marked and
  nothing is saved; and \<open>main\<close> as a whole returns 1 with the history file as it was
  before the run.
\<close>

theorem failed_run_marks_nothing:
  "(prompt_error r = None \<and>
    (process r = TimeoutExpired \<or> process r = CliNotFound \<or> process r = OtherFailure \<or>
     (\<exists>returncode. returncode \<noteq> 0 \<and> process r = Exited returncode))
      \<longrightarrow> run r = Inr (False, [])) \<and>
   (\<forall>ids. run (runner w) = Inr (False, ids) \<and> candidates_error w = None \<longrightarrow>
      summarize cfg w history unseen = Inr (1, history, [SummaryFailed]) \<and>
      (select_candidates cfg w = Inr (Candidates history unseen) \<longrightarrow>
         main (ConfigLoaded cfg) w = Inr (1, history_file history, [SummaryFailed])))"
proof (intro conjI allI impI)
  assume "prompt_error r = None \<and>
    (process r = TimeoutExpired \<or> process r = CliNotFound \<or> process r = OtherFailure \<or>
     (\<exists>returncode. returncode \<noteq> 0 \<and> process r = Exited returncode))"
  then show "run r = Inr (False, [])" using run_failure_kinds by blast
next
  fix ids
  assume a: "run (runner w) = Inr (False, ids) \<and> candidates_error w = None"
  then show s: "summarize cfg w history unseen = Inr (1, history, [SummaryFailed])"
    using summarize_failed by blast
  assume "select_candidates cfg w = Inr (Candidates history unseen)"
  with s show "main (ConfigLoaded cfg) w = Inr (1, history_file history, [SummaryFailed])"
    by (simp add: main_def)
qed

theorem failed_run_marks_nothing_witness:
  "run (runner (sample_world TimeoutExpired)) = Inr (False, []) \<and>
   summarize sample_config (sample_world (Exited 2))
       (manager_with (tl sample_entries) ''2024-01-20T00:00:00'' 1)
       (fetch (catalog_response (sample_world (Exited 2))))
     = Inr (1, manager_with (tl sample_entries) ''2024-01-20T00:00:00'' 1, [SummaryFailed]) \<and>
   main (ConfigLoaded sample_config) (sample_world (Exited 2))
     = Inr (1, Holds (ledger_with (tl sample_entries) ''2024-01-20T00:00:00''), [SummaryFailed])"
proof -
  let ?h = "manager_with (tl sample_entries) ''2024-01-20T00:00:00'' 1"
  let ?w = "sample_world (Exited 2)"
  let ?u = "fetch (catalog_response ?w)"
  have p1: "prompt_error (runner (sample_world TimeoutExpired)) = None \<and>
            process (runner (sample_world TimeoutExpired)) = TimeoutExpired"
    by (simp add: sample_world_def)
  have p2: "prompt_error (runner ?w) = None \<and>
            (\<exists>returncode. returncode \<noteq> 0 \<and> process (runner ?w) = Exited returncode)"
    by (simp add: sample_world_def)
  have c: "candidates_error ?w = None" by (simp add: sample_world_def)
  have sel: "select_candidates sample_config ?w = Inr (Candidates ?h ?u)" by code_simp
  have hf: "history_file ?h = Holds (ledger_with (tl sample_entries) ''2024-01-20T00:00:00'')"
    by (simp add: manager_with_def)
  from failed_run_marks_nothing [of "runner (sample_world TimeoutExpired)"] p1
  have a: "run (runner (sample_world TimeoutExpired)) = Inr (False, [])" by blast
  from failed_run_marks_nothing [of "runner ?w"] p2
  have r: "run (runner ?w) = Inr (False, [])" by blast
  from failed_run_marks_nothing [of "runner ?w" ?w sample_config ?h ?u] r c sel
  have b: "summarize sample_config ?w ?h ?u = Inr (1, ?h, [SummaryFailed])"
    and m: "main (ConfigLoaded sample_config) ?w = Inr (1, history_file ?h, [SummaryFailed])"
    by blast+
  from a b m hf show ?thesis by simp
qed

end
